theory Spec2Isabelle
  imports Complex_Main "HOL-Library.Multiset" "HOL-Library.Log_Nat"
begin

section \<open>JavaScript values of a request\<close>

text \<open>
  The handlers of \<^verbatim>\<open>src/index.js\<close> read fields of \<^verbatim>\<open>req.body\<close> and the path
  parameter \<^verbatim>\<open>req.params.id\<close>, test them with \<^verbatim>\<open>!x\<close> and \<^verbatim>\<open>x ? a : b\<close>, and convert
  them with \<^verbatim>\<open>Number(x)\<close>.  A field of a parsed JSON body is modelled as a scalar
  (\<open>Undefined\<close> is the absent key); arrays and objects as field values are outside the
  model.  A string is a \<open>char list\<close> of code units below 256.  A finite number is a
  double, held as the rational it stands for; the two zeros are one value, which no handler
  tells apart (both are falsy, and both are written \<^verbatim>\<open>0\<close> in a JSON body).
\<close>

datatype jsnum = NaN | PosInf | NegInf | Fin rat

datatype jsval = Undefined | Null | Bool bool | Num jsnum | Str string

text \<open>ToBoolean, as \<^verbatim>\<open>!x\<close> and \<^verbatim>\<open>x ? a : b\<close> apply it.\<close>

fun truthy :: "jsval \<Rightarrow> bool" where
  "truthy Undefined = False"
| "truthy Null = False"
| "truthy (Bool b) = b"
| "truthy (Num n) = (n \<noteq> NaN \<and> n \<noteq> Fin 0)"
| "truthy (Str s) = (s \<noteq> [])"

text \<open>
  White space of ECMAScript (WhiteSpace and LineTerminator) among the code units below
  256: TAB, LF, VT, FF, CR, SP and NBSP.  \<^verbatim>\<open>\S\<close> of a regular expression is its complement,
  and StringToNumber trims it.
\<close>

definition is_space :: "char \<Rightarrow> bool" where
  "is_space c \<longleftrightarrow> c \<in> {CHR 0x09, CHR 0x0A, CHR 0x0B, CHR 0x0C, CHR 0x0D, CHR 0x20, CHR 0xA0}"

definition trim :: "string \<Rightarrow> string" where
  "trim s = rev (dropWhile is_space (rev (dropWhile is_space s)))"

text \<open>
  The Number value of the rational \<open>p / q\<close> (with \<open>q\<close> positive): the nearest double, ties
  to the even significand.  \<open>binade a b\<close> is the exponent of the power of two at or below
  \<open>a / b\<close>; a double has 53 significant bits, and below \<^verbatim>\<open>2^-1022\<close> its last place
  stays at \<^verbatim>\<open>2^-1074\<close>; a value that rounds to \<^verbatim>\<open>2^1024\<close> or more is \<^verbatim>\<open>Infinity\<close>.
\<close>

definition round_half_even :: "int \<Rightarrow> int \<Rightarrow> int" where
  "round_half_even a b =
     (let k = a div b; r = a mod b
      in if 2 * r < b \<or> (2 * r = b \<and> k mod 2 = 0) then k else k + 1)"

definition binade :: "int \<Rightarrow> int \<Rightarrow> int" where
  "binade a b =
     (let e = bitlen a - bitlen b
      in if (if 0 \<le> e then b * 2 ^ nat e \<le> a else b \<le> a * 2 ^ nat (- e)) then e else e - 1)"

definition to_double :: "int \<Rightarrow> int \<Rightarrow> jsnum" where
  "to_double p q =
     (let a = \<bar>p\<bar>
      in if a = 0 then Fin 0
         else
           (let u = max (binade a q) (- 1022) - 52;
                m = (if 0 \<le> u then round_half_even a (q * 2 ^ nat u)
                     else round_half_even (a * 2 ^ nat (- u)) q);
                v = (if 0 \<le> u then of_int (m * 2 ^ nat u)
                     else of_int m / of_int (2 ^ nat (- u)))
            in if 1024 < bitlen m + u then (if 0 < p then PosInf else NegInf)
               else Fin (if 0 < p then v else - v)))"

text \<open>A digit of base \<open>b\<close> (up to 16), upper or lower case.\<close>

definition digit :: "int \<Rightarrow> char \<Rightarrow> int option" where
  "digit b c =
     (let n = (of_char c :: int);
          d = (if 48 \<le> n \<and> n \<le> 57 then Some (n - 48)
               else if 97 \<le> n \<and> n \<le> 102 then Some (n - 87)
               else if 65 \<le> n \<and> n \<le> 70 then Some (n - 55)
               else None)
      in case d of None \<Rightarrow> None | Some v \<Rightarrow> if v < b then Some v else None)"

fun digits :: "int \<Rightarrow> int \<Rightarrow> string \<Rightarrow> int option" where
  "digits b acc [] = Some acc"
| "digits b acc (c # cs) =
     (case digit b c of None \<Rightarrow> None | Some d \<Rightarrow> digits b (acc * b + d) cs)"

definition numeral_of :: "int \<Rightarrow> string \<Rightarrow> int option" where
  "numeral_of b s = (if s = [] then None else digits b 0 s)"

text \<open>ExponentPart without its \<^verbatim>\<open>e\<close>: an optional sign and decimal digits.\<close>

definition exponent_of :: "string \<Rightarrow> int option" where
  "exponent_of s =
     (case s of
        [] \<Rightarrow> None
      | c # cs \<Rightarrow>
          if c = CHR ''+'' then numeral_of 10 cs
          else if c = CHR ''-'' then map_option uminus (numeral_of 10 cs)
          else numeral_of 10 s)"

text \<open>
  The mantissa: \<^verbatim>\<open>digits\<close>, \<^verbatim>\<open>digits.\<close>, \<^verbatim>\<open>digits.digits\<close> or \<^verbatim>\<open>.digits\<close>, as the
  integer its digits spell and the number of digits after the dot.
\<close>

definition mantissa_of :: "string \<Rightarrow> (int \<times> int) option" where
  "mantissa_of s =
     (let ip = takeWhile (\<lambda>c. c \<noteq> CHR ''.'') s;
          rest = dropWhile (\<lambda>c. c \<noteq> CHR ''.'') s
      in if rest = [] then map_option (\<lambda>i. (i, 0)) (numeral_of 10 ip)
         else
           (let fp = tl rest
            in if ip = [] \<and> fp = [] then None
               else map_option (\<lambda>m. (m, int (length fp))) (digits 10 0 (ip @ fp))))"

text \<open>The Number value of \<open>m\<close> times ten to the power \<open>e\<close>.\<close>

definition decimal :: "int \<Rightarrow> int \<Rightarrow> jsnum" where
  "decimal m e =
     (if 0 \<le> e then to_double (m * 10 ^ nat e) 1 else to_double m (10 ^ nat (- e)))"

text \<open>StrUnsignedDecimalLiteral: \<^verbatim>\<open>Infinity\<close>, or a mantissa with an optional exponent.\<close>

definition unsigned_decimal :: "string \<Rightarrow> jsnum" where
  "unsigned_decimal s =
     (if s = ''Infinity'' then PosInf
      else
        (let is_e = (\<lambda>c. c = CHR ''e'' \<or> c = CHR ''E'');
             m = takeWhile (\<lambda>c. \<not> is_e c) s;
             rest = dropWhile (\<lambda>c. \<not> is_e c) s
         in case mantissa_of m of
              None \<Rightarrow> NaN
            | Some (d, k) \<Rightarrow>
                if rest = [] then decimal d (- k)
                else (case exponent_of (tl rest) of
                        None \<Rightarrow> NaN
                      | Some e \<Rightarrow> decimal d (e - k))))"

fun negate :: "jsnum \<Rightarrow> jsnum" where
  "negate NaN = NaN"
| "negate PosInf = NegInf"
| "negate NegInf = PosInf"
| "negate (Fin r) = Fin (- r)"

text \<open>
  StringToNumber: the trimmed string is empty (0), a hexadecimal, octal or binary integer
  literal, or a signed decimal literal; anything else is \<open>NaN\<close>.  The value of the literal
  is rounded to a double.
\<close>

definition radix_prefix :: "string \<Rightarrow> int option" where
  "radix_prefix s =
     (case s of
        a # b # _ \<Rightarrow>
          if a \<noteq> CHR ''0'' then None
          else if b = CHR ''x'' \<or> b = CHR ''X'' then Some 16
          else if b = CHR ''o'' \<or> b = CHR ''O'' then Some 8
          else if b = CHR ''b'' \<or> b = CHR ''B'' then Some 2
          else None
      | _ \<Rightarrow> None)"

definition StringToNumber :: "string \<Rightarrow> jsnum" where
  "StringToNumber s =
     (let t = trim s
      in if t = [] then Fin 0
         else
           (case radix_prefix t of
              Some b \<Rightarrow>
                (case numeral_of b (drop 2 t) of None \<Rightarrow> NaN | Some n \<Rightarrow> to_double n 1)
            | None \<Rightarrow>
                if hd t = CHR ''+'' then unsigned_decimal (tl t)
                else if hd t = CHR ''-'' then negate (unsigned_decimal (tl t))
                else unsigned_decimal t))"

text \<open>\<^verbatim>\<open>Number(x)\<close>.  A number of a parsed body is a double already.\<close>

fun Number :: "jsval \<Rightarrow> jsnum" where
  "Number Undefined = NaN"
| "Number Null = Fin 0"
| "Number (Bool b) = Fin (if b then 1 else 0)"
| "Number (Num n) = n"
| "Number (Str s) = StringToNumber s"

section \<open>The email pattern\<close>

text \<open>
  \<^verbatim>\<open>/^\S+@\S+\.\S+$/.test(email)\<close>.  The pattern has no alternation, group reference or
  look-around, and both anchors, so \<^verbatim>\<open>test\<close> answers whether the whole string is in the
  pattern's language.  The matcher below decides that by derivatives.
\<close>

datatype atom = NonSpace | Lit char

text \<open>\<open>Alt\<close> does not occur in the pattern; the derivative of a sequence needs it.\<close>

datatype regex = Never | Empty | Atom atom | Alt regex regex | Seq regex regex | Star regex

fun accepts :: "atom \<Rightarrow> char \<Rightarrow> bool" where
  "accepts NonSpace c = (\<not> is_space c)"
| "accepts (Lit a) c = (c = a)"

definition Plus :: "regex \<Rightarrow> regex" where
  "Plus r = Seq r (Star r)"

fun nullable :: "regex \<Rightarrow> bool" where
  "nullable Never = False"
| "nullable Empty = True"
| "nullable (Atom a) = False"
| "nullable (Alt r s) = (nullable r \<or> nullable s)"
| "nullable (Seq r s) = (nullable r \<and> nullable s)"
| "nullable (Star r) = True"

fun deriv :: "char \<Rightarrow> regex \<Rightarrow> regex" where
  "deriv c Never = Never"
| "deriv c Empty = Never"
| "deriv c (Atom a) = (if accepts a c then Empty else Never)"
| "deriv c (Alt r s) = Alt (deriv c r) (deriv c s)"
| "deriv c (Seq r s) =
     (if nullable r then Alt (Seq (deriv c r) s) (deriv c s) else Seq (deriv c r) s)"
| "deriv c (Star r) = Seq (deriv c r) (Star r)"

fun matches :: "regex \<Rightarrow> string \<Rightarrow> bool" where
  "matches r [] = nullable r"
| "matches r (c # cs) = matches (deriv c r) cs"

definition email_pattern :: regex where
  "email_pattern =
     Seq (Plus (Atom NonSpace))
       (Seq (Atom (Lit CHR ''@''))
         (Seq (Plus (Atom NonSpace))
           (Seq (Atom (Lit CHR ''.'')) (Plus (Atom NonSpace)))))"

text \<open>
  \<^verbatim>\<open>test\<close> converts its argument with ToString.  The string of a number, a boolean,
  \<^verbatim>\<open>null\<close> or \<^verbatim>\<open>undefined\<close> holds no \<^verbatim>\<open>@\<close>, so the pattern rejects every scalar that is
  not a string.
\<close>

fun email_test :: "jsval \<Rightarrow> bool" where
  "email_test (Str s) = matches email_pattern s"
| "email_test _ = False"

text \<open>The language of a pattern, for the proofs about \<open>matches\<close>.\<close>

definition conc :: "string set \<Rightarrow> string set \<Rightarrow> string set" where
  "conc A B = {u @ v | u v. u \<in> A \<and> v \<in> B}"

inductive_set star :: "string set \<Rightarrow> string set" for A :: "string set" where
  star_nil: "[] \<in> star A"
| star_app: "u \<in> A \<Longrightarrow> v \<in> star A \<Longrightarrow> u @ v \<in> star A"

fun lang :: "regex \<Rightarrow> string set" where
  "lang Never = {}"
| "lang Empty = {[]}"
| "lang (Atom a) = {[c] | c. accepts a c}"
| "lang (Alt r s) = lang r \<union> lang s"
| "lang (Seq r s) = conc (lang r) (lang s)"
| "lang (Star r) = star (lang r)"

definition spaceless :: "string set" where
  "spaceless = {w. \<forall>c \<in> set w. \<not> is_space c}"

section \<open>Errors of the database client and HTTP responses\<close>

text \<open>
  An error thrown by the database client, as the handlers read it: \<^verbatim>\<open>error.code\<close>,
  \<^verbatim>\<open>error.meta\<close> and \<^verbatim>\<open>error.meta?.target\<close>.  Where \<^verbatim>\<open>target\<close> is present it is taken to
  be an array of field names.  The text of \<^verbatim>\<open>error.message\<close> is not modelled: a response
  that carries it holds \<open>MessageOf error\<close>.
\<close>

record prisma_meta =
  target :: "string list option"

record prisma_error =
  code :: "string option"
  meta :: "prisma_meta option"

text \<open>
  A JSON value of an error body: a string the handler builds, the message of the caught
  error, or its \<^verbatim>\<open>meta\<close> object.
\<close>

datatype json_text = Text string | MessageOf prisma_error | MetaOf prisma_meta

text \<open>
  The records of the three tables, with the columns the handlers name (the schema is not
  among the sources).  A time is a number of milliseconds; a price is a finite number.
\<close>

type_synonym time = nat

record user =
  u_id :: int
  u_name :: string
  u_email :: string
  u_password :: string
  u_createdAt :: time
  u_updatedAt :: time

record store =
  s_id :: int
  s_name :: string
  s_userId :: int

record product =
  p_id :: int
  p_name :: string
  p_price :: rat
  p_storeId :: int
  p_createdAt :: time
  p_updatedAt :: time

text \<open>
  The owner embedded by GET /stores/:id: the fields of its \<^verbatim>\<open>select\<close>
  (id, name, email, createdAt, updatedAt).
\<close>

record owner =
  o_id :: int
  o_name :: string
  o_email :: string
  o_createdAt :: time
  o_updatedAt :: time

text \<open>
  What \<^verbatim>\<open>res.json(...)\<close> or \<^verbatim>\<open>res.end()\<close> sends.  \<open>ErrorBody e d\<close> is the object
  \<^verbatim>\<open>{ error: e, detail: d }\<close>; a \<^verbatim>\<open>detail\<close> that is \<^verbatim>\<open>undefined\<close> is left out of the JSON
  (\<open>None\<close>).
\<close>

datatype json_body =
    ErrorBody json_text "json_text option"
  | UserBody user
  | UsersBody "user list"
  | StoreBody store
  | StoreWithUser store user
  | StoreDetail store owner "product list"
  | ProductBody product
  | ProductsBody "(product \<times> store \<times> user) list"
  | NoBody

record response =
  status :: nat
  body :: json_body

text \<open>\<^verbatim>\<open>Array.prototype.join\<close> on an array of strings.\<close>

fun join :: "string \<Rightarrow> string list \<Rightarrow> string" where
  "join sep [] = []"
| "join sep [x] = x"
| "join sep (x # y # ys) = x @ sep @ join sep (y # ys)"

text \<open>
  The string literals of the source.  Letters outside ASCII are written by their code
  unit (\<open>CHR 0xE3\<close> is a with tilde).
\<close>

definition msg_conflito :: string where
  "msg_conflito = ''Conflito de dados '' @ [CHR 0xFA] @ ''nicos''"

definition msg_recurso :: string where
  "msg_recurso = ''Recurso n'' @ [CHR 0xE3] @ ''o encontrado''"

definition msg_violacao :: string where
  "msg_violacao =
     ''Viola'' @ [CHR 0xE7, CHR 0xE3] @ ''o de restri'' @ [CHR 0xE7, CHR 0xE3]
       @ ''o de chave estrangeira''"

definition msg_id_referenciado :: string where
  "msg_id_referenciado = ''O ID referenciado n'' @ [CHR 0xE3] @ ''o existe''"

definition msg_erro_interno :: string where
  "msg_erro_interno = ''Erro interno do servidor''"

definition msg_campos :: string where
  "msg_campos =
     ''Campos obrigat'' @ [CHR 0xF3] @ ''rios ausentes (name, email, password)''"

definition msg_email_invalido :: string where
  "msg_email_invalido = ''Email em formato inv'' @ [CHR 0xE1] @ ''lido''"

definition msg_email_cadastrado :: string where
  "msg_email_cadastrado = ''E-mail j'' @ [CHR 0xE1] @ '' cadastrado''"

definition msg_erro_criar :: string where
  "msg_erro_criar = ''Erro ao criar usu'' @ [CHR 0xE1] @ ''rio''"

definition msg_usuario :: string where
  "msg_usuario = ''Usu'' @ [CHR 0xE1] @ ''rio n'' @ [CHR 0xE3] @ ''o encontrado''"

definition msg_loja :: string where
  "msg_loja = ''Loja n'' @ [CHR 0xE3] @ ''o encontrada''"

definition msg_campos_ausentes :: string where
  "msg_campos_ausentes = ''Campos obrigat'' @ [CHR 0xF3] @ ''rios ausentes''"

definition msg_name_userId :: string where
  "msg_name_userId = ''name e userId s'' @ [CHR 0xE3] @ ''o obrigat'' @ [CHR 0xF3] @ ''rios''"

definition msg_produto :: string where
  "msg_produto = ''Produto n'' @ [CHR 0xE3] @ ''o encontrado''"

section \<open>The shared error mapper\<close>

text \<open>
  \<^verbatim>\<open>errorHandler(error, res)\<close> of \<^verbatim>\<open>src/index.js\<close>, lines 16 to 43.  \<open>node_env\<close> is
  \<^verbatim>\<open>process.env.NODE_ENV\<close> (\<open>None\<close> when unset).  Logging is not modelled.
\<close>

definition errorHandler :: "string option \<Rightarrow> prisma_error \<Rightarrow> response" where
  "errorHandler node_env error =
     (if code error = Some ''P2002'' then
        \<lparr>status = 409,
         body = ErrorBody (Text msg_conflito)
                  (case meta error of
                     None \<Rightarrow> None
                   | Some m \<Rightarrow>
                       (case target m of
                          None \<Rightarrow> None
                        | Some names \<Rightarrow> Some (Text (join '', '' names))))\<rparr>
      else if code error = Some ''P2025'' then
        \<lparr>status = 404, body = ErrorBody (Text msg_recurso) None\<rparr>
      else if code error = Some ''P2003'' then
        \<lparr>status = 400,
         body = ErrorBody (Text msg_violacao) (Some (Text msg_id_referenciado))\<rparr>
      else
        \<lparr>status = 500,
         body = ErrorBody (Text msg_erro_interno)
                  (if node_env = Some ''development'' then Some (MessageOf error) else None)\<rparr>)"

section \<open>The database client\<close>

text \<open>
  Modelled from the spec: the database client \<^verbatim>\<open>prisma\<close> that \<^verbatim>\<open>src/index.js\<close> imports
  from \<^verbatim>\<open>db.js\<close>, and the schema behind it; neither is among the sources.  The spec's data
  model gives three tables; a user's email is unique, a store references an existing
  user, a product references an existing store, deleting a user deletes the stores it
  owns and their products, and deleting a store deletes its products.  Identifiers are
  integers given out in sequence.

  The calls behave as the client library documents them: a call without \<^verbatim>\<open>select\<close>
  returns every column of the record; a field of an update's \<^verbatim>\<open>data\<close> that is
  \<^verbatim>\<open>undefined\<close> is left as it is; a unique-constraint violation has the code P2002, an
  update or delete of a record that is not there P2025, a reference without a target
  P2003; and a call with an argument that the client does not accept for its column (a
  name that is not a string, \<^verbatim>\<open>NaN\<close> or an infinity for a number) is rejected before it
  reaches the tables, with an error that carries none of these three codes.  The spec
  does not say how the client reads a number that is given for an integer column; the
  model follows the client library, which cuts the fraction off (1.5 is read as 1) and
  rejects what does not fit a signed 64-bit integer (as \<^verbatim>\<open>1e21\<close>).  The decimal text in
  which a number travels to the client and the loss of the connection are not modelled.
\<close>

record db =
  users :: "user list"
  stores :: "store list"
  products :: "product list"
  next_user_id :: int
  next_store_id :: int
  next_product_id :: int

text \<open>Modelled from the spec: the errors the absent client throws, by kind.\<close>

definition validation_error :: prisma_error where
  "validation_error = \<lparr>code = None, meta = None\<rparr>"

definition inconsistent_result :: prisma_error where
  "inconsistent_result = \<lparr>code = None, meta = None\<rparr>"

definition unique_violation :: "string list \<Rightarrow> prisma_error" where
  "unique_violation names = \<lparr>code = Some ''P2002'', meta = Some \<lparr>target = Some names\<rparr>\<rparr>"

definition record_not_found :: prisma_error where
  "record_not_found = \<lparr>code = Some ''P2025'', meta = Some \<lparr>target = None\<rparr>\<rparr>"

definition foreign_key_violation :: prisma_error where
  "foreign_key_violation = \<lparr>code = Some ''P2003'', meta = Some \<lparr>target = None\<rparr>\<rparr>"

text \<open>
  Modelled from the spec: an argument as the client reads it for a column of the absent
  schema.  A name is a string; a price is a finite number; an identifier is the integer
  part of a finite number, within the signed 64-bit range.  \<open>None\<close> is a rejected
  argument.
\<close>

fun as_string :: "jsval \<Rightarrow> string option" where
  "as_string (Str s) = Some s"
| "as_string _ = None"

fun as_int :: "jsnum \<Rightarrow> int option" where
  "as_int (Fin r) =
     (let t = (if 0 \<le> r then \<lfloor>r\<rfloor> else \<lceil>r\<rceil>)
      in if - (2 ^ 63) \<le> t \<and> t < 2 ^ 63 then Some t else None)"
| "as_int _ = None"

fun as_float :: "jsnum \<Rightarrow> rat option" where
  "as_float (Fin r) = Some r"
| "as_float _ = None"

text \<open>
  Modelled from the spec: a field of an update's \<^verbatim>\<open>data\<close>.  \<^verbatim>\<open>undefined\<close> leaves the
  column as it is (\<open>Some None\<close>), a value of the column's type sets it, anything else is
  rejected (\<open>None\<close>).
\<close>

fun opt_string :: "jsval \<Rightarrow> string option option" where
  "opt_string Undefined = Some None"
| "opt_string (Str s) = Some (Some s)"
| "opt_string _ = None"

fun opt_int :: "jsnum option \<Rightarrow> int option option" where
  "opt_int None = Some None"
| "opt_int (Some n) = map_option Some (as_int n)"

fun opt_float :: "jsnum option \<Rightarrow> rat option option" where
  "opt_float None = Some None"
| "opt_float (Some n) = map_option Some (as_float n)"

subsection \<open>Users\<close>

text \<open>
  Modelled from the spec: \<^verbatim>\<open>prisma.user.create({ data: { name, email, password } })\<close>.
  The email is unique; the password is stored as received.
\<close>

definition user_create ::
  "time \<Rightarrow> jsval \<Rightarrow> jsval \<Rightarrow> jsval \<Rightarrow> db \<Rightarrow> prisma_error + (user \<times> db)" where
  "user_create now name email password d =
     (case (as_string name, as_string email, as_string password) of
        (Some n, Some e, Some p) \<Rightarrow>
          if e \<in> set (map u_email (users d)) then Inl (unique_violation [''email''])
          else
            (let u = \<lparr>u_id = next_user_id d, u_name = n, u_email = e, u_password = p,
                      u_createdAt = now, u_updatedAt = now\<rparr>
             in Inr (u, d\<lparr>users := users d @ [u], next_user_id := next_user_id d + 1\<rparr>))
      | _ \<Rightarrow> Inl validation_error)"

text \<open>Modelled from the spec: \<^verbatim>\<open>prisma.user.findMany({ orderBy: { id: "asc" } })\<close>.\<close>

definition user_findMany :: "db \<Rightarrow> prisma_error + user list" where
  "user_findMany d = Inr (sort_key u_id (users d))"

text \<open>Modelled from the spec: \<^verbatim>\<open>prisma.user.findUnique({ where: { id } })\<close>.\<close>

definition user_findUnique :: "jsnum \<Rightarrow> db \<Rightarrow> prisma_error + user option" where
  "user_findUnique n d =
     (case as_int n of
        None \<Rightarrow> Inl validation_error
      | Some i \<Rightarrow> Inr (find (\<lambda>u. u_id u = i) (users d)))"

text \<open>
  Modelled from the spec: the cascade of the data model.  With the user \<open>i\<close> go the
  stores it owns and the products of those stores.
\<close>

definition without_user :: "int \<Rightarrow> db \<Rightarrow> db" where
  "without_user i d =
     d\<lparr>users := filter (\<lambda>x. u_id x \<noteq> i) (users d),
       stores := filter (\<lambda>s. s_userId s \<noteq> i) (stores d),
       products :=
         filter (\<lambda>p. p_storeId p \<notin> set (map s_id (filter (\<lambda>s. s_userId s = i) (stores d))))
           (products d)\<rparr>"

text \<open>Modelled from the spec: \<^verbatim>\<open>prisma.user.delete({ where: { id } })\<close>.\<close>

definition user_delete :: "jsnum \<Rightarrow> db \<Rightarrow> prisma_error + (user \<times> db)" where
  "user_delete n d =
     (case as_int n of
        None \<Rightarrow> Inl validation_error
      | Some i \<Rightarrow>
          (case find (\<lambda>u. u_id u = i) (users d) of
             None \<Rightarrow> Inl record_not_found
           | Some u \<Rightarrow> Inr (u, without_user i d)))"

subsection \<open>Stores\<close>

text \<open>
  Modelled from the spec:
  \<^verbatim>\<open>prisma.store.create({ data: { name, userId }, include: { user: true } })\<close>, the created
  store with the whole record of its user.
\<close>

definition store_create ::
  "jsval \<Rightarrow> jsnum \<Rightarrow> db \<Rightarrow> prisma_error + ((store \<times> user) \<times> db)" where
  "store_create name userId d =
     (case (as_string name, as_int userId) of
        (Some n, Some uid) \<Rightarrow>
          (case find (\<lambda>u. u_id u = uid) (users d) of
             None \<Rightarrow> Inl foreign_key_violation
           | Some u \<Rightarrow>
               (let s = \<lparr>s_id = next_store_id d, s_name = n, s_userId = uid\<rparr>
                in Inr ((s, u), d\<lparr>stores := stores d @ [s],
                                  next_store_id := next_store_id d + 1\<rparr>)))
      | _ \<Rightarrow> Inl validation_error)"

text \<open>
  Modelled from the spec: the \<^verbatim>\<open>select\<close> of GET /stores/:id on the store's user, and
  its \<^verbatim>\<open>orderBy: { createdAt: "desc" }\<close> on the store's products.
\<close>

definition select_owner :: "user \<Rightarrow> owner" where
  "select_owner u =
     \<lparr>o_id = u_id u, o_name = u_name u, o_email = u_email u,
      o_createdAt = u_createdAt u, o_updatedAt = u_updatedAt u\<rparr>"

definition products_of :: "int \<Rightarrow> db \<Rightarrow> product list" where
  "products_of i d = rev (sort_key p_createdAt (filter (\<lambda>p. p_storeId p = i) (products d)))"

text \<open>
  Modelled from the spec: \<^verbatim>\<open>prisma.store.findUnique\<close> of GET /stores/:id.  The result
  is the store, its user cut down to the selected fields, and its products by descending
  \<^verbatim>\<open>createdAt\<close>.  A store whose user is not in the table makes the client fail, as a
  required relation that comes back empty does.
\<close>

definition store_findUnique ::
  "jsnum \<Rightarrow> db \<Rightarrow> prisma_error + (store \<times> owner \<times> product list) option" where
  "store_findUnique n d =
     (case as_int n of
        None \<Rightarrow> Inl validation_error
      | Some i \<Rightarrow>
          (case find (\<lambda>s. s_id s = i) (stores d) of
             None \<Rightarrow> Inr None
           | Some s \<Rightarrow>
               (case find (\<lambda>u. u_id u = s_userId s) (users d) of
                  None \<Rightarrow> Inl inconsistent_result
                | Some u \<Rightarrow> Inr (Some (s, select_owner u, products_of (s_id s) d)))))"

text \<open>
  Modelled from the spec:
  \<^verbatim>\<open>prisma.store.update({ where: { id }, data: { name, userId } })\<close>.  The arguments are
  checked, then the record is looked up (P2025 when there is none), then the new owner
  (P2003 when there is no such user).
\<close>

definition store_update ::
  "jsnum \<Rightarrow> jsval \<Rightarrow> jsnum option \<Rightarrow> db \<Rightarrow> prisma_error + (store \<times> db)" where
  "store_update n name userId d =
     (case (as_int n, opt_string name, opt_int userId) of
        (Some i, Some nm, Some uid) \<Rightarrow>
          (case find (\<lambda>s. s_id s = i) (stores d) of
             None \<Rightarrow> Inl record_not_found
           | Some s \<Rightarrow>
               if (case uid of None \<Rightarrow> False | Some u \<Rightarrow> u \<notin> set (map u_id (users d)))
               then Inl foreign_key_violation
               else
                 (let s' = s\<lparr>s_name := (case nm of None \<Rightarrow> s_name s | Some x \<Rightarrow> x),
                              s_userId := (case uid of None \<Rightarrow> s_userId s | Some u \<Rightarrow> u)\<rparr>
                  in Inr (s', d\<lparr>stores := map (\<lambda>x. if s_id x = i then s' else x) (stores d)\<rparr>)))
      | _ \<Rightarrow> Inl validation_error)"

text \<open>
  Modelled from the spec: \<^verbatim>\<open>prisma.store.delete({ where: { id } })\<close>.  The store goes,
  and its products.
\<close>

definition store_delete :: "jsnum \<Rightarrow> db \<Rightarrow> prisma_error + (store \<times> db)" where
  "store_delete n d =
     (case as_int n of
        None \<Rightarrow> Inl validation_error
      | Some i \<Rightarrow>
          (case find (\<lambda>s. s_id s = i) (stores d) of
             None \<Rightarrow> Inl record_not_found
           | Some s \<Rightarrow>
               Inr (s, d\<lparr>stores := filter (\<lambda>x. s_id x \<noteq> i) (stores d),
                         products := filter (\<lambda>p. p_storeId p \<noteq> i) (products d)\<rparr>)))"

subsection \<open>Products\<close>

text \<open>
  Modelled from the spec:
  \<^verbatim>\<open>prisma.product.create({ data: { name, price, storeId, updatedAt } })\<close>;
  \<^verbatim>\<open>createdAt\<close> is the time of the insertion.
\<close>

definition product_create ::
  "time \<Rightarrow> jsval \<Rightarrow> jsnum \<Rightarrow> jsnum \<Rightarrow> time \<Rightarrow> db \<Rightarrow> prisma_error + (product \<times> db)" where
  "product_create now name price storeId updatedAt d =
     (case (as_string name, as_float price, as_int storeId) of
        (Some n, Some pr, Some sid) \<Rightarrow>
          if sid \<notin> set (map s_id (stores d)) then Inl foreign_key_violation
          else
            (let p = \<lparr>p_id = next_product_id d, p_name = n, p_price = pr, p_storeId = sid,
                      p_createdAt = now, p_updatedAt = updatedAt\<rparr>
             in Inr (p, d\<lparr>products := products d @ [p],
                          next_product_id := next_product_id d + 1\<rparr>))
      | _ \<Rightarrow> Inl validation_error)"

text \<open>
  Modelled from the spec:
  \<^verbatim>\<open>prisma.product.findMany({ include: { store: { include: { user: true } } } })\<close>, every
  product with its store and that store's user.
\<close>

definition with_store :: "db \<Rightarrow> product \<Rightarrow> (product \<times> store \<times> user) option" where
  "with_store d p =
     (case find (\<lambda>s. s_id s = p_storeId p) (stores d) of
        None \<Rightarrow> None
      | Some s \<Rightarrow>
          (case find (\<lambda>u. u_id u = s_userId s) (users d) of
             None \<Rightarrow> None
           | Some u \<Rightarrow> Some (p, s, u)))"

definition product_findMany :: "db \<Rightarrow> prisma_error + (product \<times> store \<times> user) list" where
  "product_findMany d =
     (case those (map (with_store d) (products d)) of
        None \<Rightarrow> Inl inconsistent_result
      | Some ps \<Rightarrow> Inr ps)"

text \<open>
  Modelled from the spec:
  \<^verbatim>\<open>prisma.product.update({ where: { id }, data: { name, price, storeId } })\<close>.
\<close>

definition product_update ::
  "jsnum \<Rightarrow> jsval \<Rightarrow> jsnum option \<Rightarrow> jsnum option \<Rightarrow> db \<Rightarrow> prisma_error + (product \<times> db)" where
  "product_update n name price storeId d =
     (case (as_int n, opt_string name, opt_float price, opt_int storeId) of
        (Some i, Some nm, Some pr, Some sid) \<Rightarrow>
          (case find (\<lambda>p. p_id p = i) (products d) of
             None \<Rightarrow> Inl record_not_found
           | Some p \<Rightarrow>
               if (case sid of None \<Rightarrow> False | Some k \<Rightarrow> k \<notin> set (map s_id (stores d)))
               then Inl foreign_key_violation
               else
                 (let p' = p\<lparr>p_name := (case nm of None \<Rightarrow> p_name p | Some x \<Rightarrow> x),
                              p_price := (case pr of None \<Rightarrow> p_price p | Some x \<Rightarrow> x),
                              p_storeId := (case sid of None \<Rightarrow> p_storeId p | Some k \<Rightarrow> k)\<rparr>
                  in Inr (p', d\<lparr>products := map (\<lambda>x. if p_id x = i then p' else x) (products d)\<rparr>)))
      | _ \<Rightarrow> Inl validation_error)"

text \<open>Modelled from the spec: \<^verbatim>\<open>prisma.product.delete({ where: { id } })\<close>.\<close>

definition product_delete :: "jsnum \<Rightarrow> db \<Rightarrow> prisma_error + (product \<times> db)" where
  "product_delete n d =
     (case as_int n of
        None \<Rightarrow> Inl validation_error
      | Some i \<Rightarrow>
          (case find (\<lambda>p. p_id p = i) (products d) of
             None \<Rightarrow> Inl record_not_found
           | Some p \<Rightarrow> Inr (p, d\<lparr>products := filter (\<lambda>x. p_id x \<noteq> i) (products d)\<rparr>)))"

subsection \<open>Invariants\<close>

text \<open>
  The invariants of the spec's data model: identifiers and emails are unique, identifiers
  in use lie below the next one to give out, and every reference has its target.
\<close>

definition wf_db :: "db \<Rightarrow> bool" where
  "wf_db d \<longleftrightarrow>
     distinct (map u_id (users d)) \<and> distinct (map s_id (stores d))
     \<and> distinct (map p_id (products d)) \<and> distinct (map u_email (users d))
     \<and> (\<forall>u \<in> set (users d). u_id u < next_user_id d)
     \<and> (\<forall>s \<in> set (stores d). s_id s < next_store_id d)
     \<and> (\<forall>p \<in> set (products d). p_id p < next_product_id d)
     \<and> (\<forall>s \<in> set (stores d). s_userId s \<in> set (map u_id (users d)))
     \<and> (\<forall>p \<in> set (products d). p_storeId p \<in> set (map s_id (stores d)))"

section \<open>The route handlers\<close>

text \<open>
  The handlers of \<^verbatim>\<open>src/index.js\<close>, in the order of the file.  Each takes what it reads
  of the request (the fields it destructures from \<^verbatim>\<open>req.body\<close>, and the string
  \<^verbatim>\<open>req.params.id\<close>, here \<open>idp\<close>) and the database, and returns the response it sends
  with the database it leaves.  \<open>now\<close> is the clock at the request; \<open>node_env\<close> is
  \<^verbatim>\<open>process.env.NODE_ENV\<close>.  A \<^verbatim>\<open>catch\<close> is the \<open>Inl\<close> branch of the call in its
  \<^verbatim>\<open>try\<close>.  Logging is not modelled.

  The second source file (\<^verbatim>\<open>src/unnamed/part_000\<close>) is an earlier draft of the same
  file.  It does not parse: the \<^verbatim>\<open>try\<close> of its PUT handler (lines 74 to 77) has neither
  \<^verbatim>\<open>catch\<close> nor \<^verbatim>\<open>finally\<close> and the handler is not closed, so the module cannot be
  loaded and no request reaches its handlers.  They are not embedded here.
\<close>

definition respond :: "nat \<Rightarrow> json_body \<Rightarrow> response" where
  "respond st b = \<lparr>status = st, body = b\<rparr>"

text \<open>POST /users, lines 50 to 88.\<close>

definition post_users :: "time \<Rightarrow> jsval \<Rightarrow> jsval \<Rightarrow> jsval \<Rightarrow> db \<Rightarrow> response \<times> db" where
  "post_users now name email password d =
     (if \<not> truthy name \<or> \<not> truthy email \<or> \<not> truthy password then
        (respond 400 (ErrorBody (Text msg_campos) None), d)
      else if \<not> email_test email then
        (respond 400 (ErrorBody (Text msg_email_invalido) None), d)
      else
        (case user_create now name email password d of
           Inr (novoUsuario, d') \<Rightarrow> (respond 201 (UserBody novoUsuario), d')
         | Inl error \<Rightarrow>
             if code error = Some ''P2002'' then
               (respond 409
                  (ErrorBody (Text msg_email_cadastrado)
                     (Some (case meta error of Some m \<Rightarrow> MetaOf m | None \<Rightarrow> MessageOf error))),
                d)
             else
               (respond 500 (ErrorBody (Text msg_erro_criar) (Some (MessageOf error))), d)))"

text \<open>GET /users, lines 91 to 100.\<close>

definition get_users :: "string option \<Rightarrow> db \<Rightarrow> response \<times> db" where
  "get_users node_env d =
     (case user_findMany d of
        Inr usuarios \<Rightarrow> (respond 200 (UsersBody usuarios), d)
      | Inl error \<Rightarrow> (errorHandler node_env error, d))"

text \<open>DELETE /users/:id, lines 103 to 125.\<close>

definition delete_users_id :: "string option \<Rightarrow> string \<Rightarrow> db \<Rightarrow> response \<times> db" where
  "delete_users_id node_env idp d =
     (let userId = Number (Str idp)
      in case user_findUnique userId d of
           Inl error \<Rightarrow> (errorHandler node_env error, d)
         | Inr None \<Rightarrow> (respond 404 (ErrorBody (Text msg_usuario) None), d)
         | Inr (Some _) \<Rightarrow>
             (case user_delete userId d of
                Inl error \<Rightarrow> (errorHandler node_env error, d)
              | Inr (_, d') \<Rightarrow> (respond 204 NoBody, d')))"

text \<open>POST /stores, lines 131 to 166.\<close>

definition post_stores :: "string option \<Rightarrow> jsval \<Rightarrow> jsval \<Rightarrow> db \<Rightarrow> response \<times> db" where
  "post_stores node_env name userId d =
     (if \<not> truthy name \<or> \<not> truthy userId then
        (respond 400 (ErrorBody (Text msg_campos_ausentes) (Some (Text msg_name_userId))), d)
      else
        (case user_findUnique (Number userId) d of
           Inl error \<Rightarrow> (errorHandler node_env error, d)
         | Inr None \<Rightarrow> (respond 404 (ErrorBody (Text msg_usuario) None), d)
         | Inr (Some _) \<Rightarrow>
             (case store_create name (Number userId) d of
                Inl error \<Rightarrow> (errorHandler node_env error, d)
              | Inr ((s, u), d') \<Rightarrow> (respond 201 (StoreWithUser s u), d'))))"

text \<open>GET /stores/:id, lines 168 to 198.\<close>

definition get_stores_id :: "string option \<Rightarrow> string \<Rightarrow> db \<Rightarrow> response \<times> db" where
  "get_stores_id node_env idp d =
     (case store_findUnique (Number (Str idp)) d of
        Inl error \<Rightarrow> (errorHandler node_env error, d)
      | Inr None \<Rightarrow> (respond 404 (ErrorBody (Text msg_loja) None), d)
      | Inr (Some (s, u, ps)) \<Rightarrow> (respond 200 (StoreDetail s u ps), d))"

text \<open>PUT /stores/:id, lines 201 to 218.\<close>

definition put_stores_id :: "string \<Rightarrow> jsval \<Rightarrow> jsval \<Rightarrow> db \<Rightarrow> response \<times> db" where
  "put_stores_id idp name userId d =
     (case store_update (Number (Str idp)) name
             (if truthy userId then Some (Number userId) else None) d of
        Inr (s, d') \<Rightarrow> (respond 200 (StoreBody s), d')
      | Inl e \<Rightarrow>
          if code e = Some ''P2025'' then (respond 404 (ErrorBody (Text msg_loja) None), d)
          else (respond 400 (ErrorBody (MessageOf e) None), d))"

text \<open>DELETE /stores/:id, lines 221 to 233.\<close>

definition delete_stores_id :: "string \<Rightarrow> db \<Rightarrow> response \<times> db" where
  "delete_stores_id idp d =
     (case store_delete (Number (Str idp)) d of
        Inr (_, d') \<Rightarrow> (respond 204 NoBody, d')
      | Inl e \<Rightarrow>
          if code e = Some ''P2025'' then (respond 404 (ErrorBody (Text msg_loja) None), d)
          else (respond 400 (ErrorBody (MessageOf e) None), d))"

text \<open>
  POST /products, lines 236 to 251.  \<^verbatim>\<open>new Date()\<close> is \<open>now\<close>; \<open>created\<close> is the time
  at which the client inserts the record.
\<close>

definition post_products ::
  "time \<Rightarrow> time \<Rightarrow> jsval \<Rightarrow> jsval \<Rightarrow> jsval \<Rightarrow> db \<Rightarrow> response \<times> db" where
  "post_products now created name price storeId d =
     (case product_create created name (Number price) (Number storeId) now d of
        Inr (p, d') \<Rightarrow> (respond 201 (ProductBody p), d')
      | Inl e \<Rightarrow> (respond 400 (ErrorBody (MessageOf e) None), d))"

text \<open>GET /products, lines 253 to 262.\<close>

definition get_products :: "db \<Rightarrow> response \<times> db" where
  "get_products d =
     (case product_findMany d of
        Inr ps \<Rightarrow> (respond 200 (ProductsBody ps), d)
      | Inl e \<Rightarrow> (respond 400 (ErrorBody (MessageOf e) None), d))"

text \<open>PUT /products/:id, lines 265 to 283.\<close>

definition put_products_id :: "string \<Rightarrow> jsval \<Rightarrow> jsval \<Rightarrow> jsval \<Rightarrow> db \<Rightarrow> response \<times> db" where
  "put_products_id idp name price storeId d =
     (case product_update (Number (Str idp)) name
             (if truthy price then Some (Number price) else None)
             (if truthy storeId then Some (Number storeId) else None) d of
        Inr (p, d') \<Rightarrow> (respond 200 (ProductBody p), d')
      | Inl e \<Rightarrow>
          if code e = Some ''P2025'' then (respond 404 (ErrorBody (Text msg_produto) None), d)
          else (respond 400 (ErrorBody (MessageOf e) None), d))"

text \<open>DELETE /products/:id, lines 286 to 298.\<close>

definition delete_products_id :: "string \<Rightarrow> db \<Rightarrow> response \<times> db" where
  "delete_products_id idp d =
     (case product_delete (Number (Str idp)) d of
        Inr (_, d') \<Rightarrow> (respond 204 NoBody, d')
      | Inl e \<Rightarrow>
          if code e = Some ''P2025'' then (respond 404 (ErrorBody (Text msg_produto) None), d)
          else (respond 400 (ErrorBody (MessageOf e) None), d))"

section \<open>The server\<close>

text \<open>
  A request to one of the routes that reach the database, with what its handler reads;
  the two routes that answer a constant (\<^verbatim>\<open>/\<close> and \<^verbatim>\<open>/status\<close>) are left out.  The server
  starts on an empty database, and every state it can be in is reached by a sequence of
  requests.
\<close>

datatype request =
    PostUsers time jsval jsval jsval
  | GetUsers
  | DeleteUser string
  | PostStores jsval jsval
  | GetStore string
  | PutStore string jsval jsval
  | DeleteStore string
  | PostProducts time time jsval jsval jsval
  | GetProducts
  | PutProduct string jsval jsval jsval
  | DeleteProduct string

fun handle :: "string option \<Rightarrow> request \<Rightarrow> db \<Rightarrow> response \<times> db" where
  "handle env (PostUsers now name email password) d = post_users now name email password d"
| "handle env GetUsers d = get_users env d"
| "handle env (DeleteUser idp) d = delete_users_id env idp d"
| "handle env (PostStores name userId) d = post_stores env name userId d"
| "handle env (GetStore idp) d = get_stores_id env idp d"
| "handle env (PutStore idp name userId) d = put_stores_id idp name userId d"
| "handle env (DeleteStore idp) d = delete_stores_id idp d"
| "handle env (PostProducts now created name price storeId) d =
     post_products now created name price storeId d"
| "handle env GetProducts d = get_products d"
| "handle env (PutProduct idp name price storeId) d = put_products_id idp name price storeId d"
| "handle env (DeleteProduct idp) d = delete_products_id idp d"

definition empty_db :: db where
  "empty_db =
     \<lparr>users = [], stores = [], products = [],
      next_user_id = 1, next_store_id = 1, next_product_id = 1\<rparr>"

inductive reachable :: "string option \<Rightarrow> db \<Rightarrow> bool" for env :: "string option" where
  start: "reachable env empty_db"
| step: "reachable env d \<Longrightarrow> reachable env (snd (handle env r d))"

section \<open>An example database\<close>

text \<open>
  One user who owns one store with two products; the concrete requests of this theory run
  against it.
\<close>

definition example_db :: db where
  "example_db =
     \<lparr>users = [\<lparr>u_id = 1, u_name = ''A'', u_email = ''a@a.com'', u_password = ''p'',
                 u_createdAt = 5, u_updatedAt = 5\<rparr>],
      stores = [\<lparr>s_id = 1, s_name = ''S'', s_userId = 1\<rparr>],
      products = [\<lparr>p_id = 1, p_name = ''P'', p_price = 10, p_storeId = 1,
                    p_createdAt = 7, p_updatedAt = 7\<rparr>,
                  \<lparr>p_id = 2, p_name = ''Q'', p_price = 3 / 2, p_storeId = 1,
                    p_createdAt = 9, p_updatedAt = 9\<rparr>],
      next_user_id = 2, next_store_id = 2, next_product_id = 3\<rparr>"

text \<open>Two users; the first owns two stores, the second one; each store has a product.\<close>

definition two_owner_db :: db where
  "two_owner_db =
     \<lparr>users = [\<lparr>u_id = 1, u_name = ''A'', u_email = ''a@a.com'', u_password = ''p'',
                 u_createdAt = 5, u_updatedAt = 5\<rparr>,
               \<lparr>u_id = 2, u_name = ''B'', u_email = ''b@b.com'', u_password = ''q'',
                 u_createdAt = 6, u_updatedAt = 6\<rparr>],
      stores = [\<lparr>s_id = 1, s_name = ''S'', s_userId = 1\<rparr>,
                \<lparr>s_id = 2, s_name = ''T'', s_userId = 2\<rparr>,
                \<lparr>s_id = 3, s_name = ''U'', s_userId = 1\<rparr>],
      products = [\<lparr>p_id = 1, p_name = ''P'', p_price = 10, p_storeId = 1,
                    p_createdAt = 7, p_updatedAt = 7\<rparr>,
                  \<lparr>p_id = 2, p_name = ''Q'', p_price = 20, p_storeId = 2,
                    p_createdAt = 8, p_updatedAt = 8\<rparr>,
                  \<lparr>p_id = 3, p_name = ''R'', p_price = 30, p_storeId = 3,
                    p_createdAt = 9, p_updatedAt = 9\<rparr>],
      next_user_id = 3, next_store_id = 4, next_product_id = 4\<rparr>"

section \<open>The matcher decides the pattern's language\<close>

lemma nullable_lang: "nullable r \<longleftrightarrow> [] \<in> lang r"
  by (induction r) (auto simp: conc_def intro: star.intros)

lemma conc_cons:
  "c # w \<in> conc A B \<longleftrightarrow>
     ([] \<in> A \<and> c # w \<in> B) \<or> (\<exists>u v. c # u \<in> A \<and> v \<in> B \<and> w = u @ v)"
  unfolding conc_def by (auto simp: Cons_eq_append_conv)

lemma star_cons:
  "c # w \<in> star A \<longleftrightarrow> (\<exists>u v. c # u \<in> A \<and> v \<in> star A \<and> w = u @ v)"
proof
  assume "c # w \<in> star A"
  then show "\<exists>u v. c # u \<in> A \<and> v \<in> star A \<and> w = u @ v"
  proof (induction "c # w" rule: star.induct)
    case (star_app u v)
    then show ?case by (cases u) auto
  qed
next
  assume "\<exists>u v. c # u \<in> A \<and> v \<in> star A \<and> w = u @ v"
  then obtain u v where "c # u \<in> A" "v \<in> star A" "w = u @ v" by blast
  then show "c # w \<in> star A" using star.star_app[of "c # u" A v] by simp
qed

lemma lang_deriv: "w \<in> lang (deriv c r) \<longleftrightarrow> c # w \<in> lang r"
proof (induction r arbitrary: w)
  case (Seq r s)
  have "w \<in> lang (deriv c (Seq r s)) \<longleftrightarrow>
          (nullable r \<and> w \<in> lang (deriv c s)) \<or> w \<in> conc (lang (deriv c r)) (lang s)"
    by auto
  also have "\<dots> \<longleftrightarrow> ([] \<in> lang r \<and> c # w \<in> lang s)
                     \<or> (\<exists>u v. c # u \<in> lang r \<and> v \<in> lang s \<and> w = u @ v)"
    using Seq by (auto simp: nullable_lang conc_def)
  finally show ?case by (simp add: conc_cons)
next
  case (Star r)
  then show ?case by (auto simp: conc_def star_cons)
qed auto

lemma matches_lang: "matches r w \<longleftrightarrow> w \<in> lang r"
  by (induction w arbitrary: r) (simp_all add: nullable_lang lang_deriv)

lemma star_nonspace: "star {[c] | c. \<not> is_space c} = spaceless"
proof
  show "star {[c] | c. \<not> is_space c} \<subseteq> spaceless"
  proof
    fix w assume "w \<in> star {[c] | c. \<not> is_space c}"
    then show "w \<in> spaceless"
      by (induction rule: star.induct) (auto simp: spaceless_def)
  qed
  show "spaceless \<subseteq> star {[c] | c. \<not> is_space c}"
  proof
    fix w assume "w \<in> spaceless"
    then show "w \<in> star {[c] | c. \<not> is_space c}"
    proof (induction w)
      case Nil
      show ?case by (rule star.star_nil)
    next
      case (Cons c w)
      then have "[c] \<in> {[c] | c. \<not> is_space c}" and "w \<in> star {[c] | c. \<not> is_space c}"
        by (auto simp: spaceless_def)
      then show ?case using star.star_app[of "[c]" _ w] by simp
    qed
  qed
qed

lemma lang_plus_nonspace:
  "lang (Plus (Atom NonSpace)) = {w. w \<noteq> [] \<and> (\<forall>c \<in> set w. \<not> is_space c)}"
proof -
  have "conc {[c] | c. \<not> is_space c} spaceless = {w. w \<noteq> [] \<and> (\<forall>c \<in> set w. \<not> is_space c)}"
  proof (intro set_eqI iffI)
    fix w assume "w \<in> conc {[c] | c. \<not> is_space c} spaceless"
    then show "w \<in> {w. w \<noteq> [] \<and> (\<forall>c \<in> set w. \<not> is_space c)}"
      by (auto simp: conc_def spaceless_def)
  next
    fix w assume "w \<in> {w. w \<noteq> [] \<and> (\<forall>c \<in> set w. \<not> is_space c)}"
    then obtain x xs where "w = [x] @ xs" "\<not> is_space x" "xs \<in> spaceless"
      by (cases w) (auto simp: spaceless_def)
    then show "w \<in> conc {[c] | c. \<not> is_space c} spaceless"
      unfolding conc_def by blast
  qed
  then show ?thesis by (simp add: Plus_def star_nonspace)
qed

lemma concI: "u \<in> A \<Longrightarrow> v \<in> B \<Longrightarrow> u @ v \<in> conc A B"
  unfolding conc_def by blast

lemma concE: "w \<in> conc A B \<Longrightarrow> (\<And>u v. w = u @ v \<Longrightarrow> u \<in> A \<Longrightarrow> v \<in> B \<Longrightarrow> P) \<Longrightarrow> P"
  unfolding conc_def by blast

lemma matches_email_iff:
  "matches email_pattern s \<longleftrightarrow>
     (\<exists>a b c. s = a @ ''@'' @ b @ ''.'' @ c \<and> a \<noteq> [] \<and> b \<noteq> [] \<and> c \<noteq> []
        \<and> (\<forall>x \<in> set a \<union> set b \<union> set c. \<not> is_space x))"
proof -
  let ?N = "{w. w \<noteq> [] \<and> (\<forall>c \<in> set w. \<not> is_space c)}"
  have L: "lang email_pattern = conc ?N (conc {''@''} (conc ?N (conc {''.''} ?N)))"
    unfolding email_pattern_def lang.simps lang_plus_nonspace by simp
  have "s \<in> lang email_pattern \<longleftrightarrow>
     (\<exists>a b c. s = a @ ''@'' @ b @ ''.'' @ c \<and> a \<in> ?N \<and> b \<in> ?N \<and> c \<in> ?N)"
  proof
    assume "s \<in> lang email_pattern"
    then obtain a r1 where 1: "s = a @ r1" "a \<in> ?N" "r1 \<in> conc {''@''} (conc ?N (conc {''.''} ?N))"
      unfolding L by (erule concE)
    then obtain r2 where 2: "r1 = ''@'' @ r2" "r2 \<in> conc ?N (conc {''.''} ?N)"
      by (auto elim: concE [of r1])
    then obtain b r3 where 3: "r2 = b @ r3" "b \<in> ?N" "r3 \<in> conc {''.''} ?N"
      by (erule_tac concE [of r2])
    then obtain c where 4: "r3 = ''.'' @ c" "c \<in> ?N"
      by (auto elim: concE [of r3])
    from 1 2 3 4 show "\<exists>a b c. s = a @ ''@'' @ b @ ''.'' @ c \<and> a \<in> ?N \<and> b \<in> ?N \<and> c \<in> ?N"
      by blast
  next
    assume "\<exists>a b c. s = a @ ''@'' @ b @ ''.'' @ c \<and> a \<in> ?N \<and> b \<in> ?N \<and> c \<in> ?N"
    then obtain a b c where s: "s = a @ ''@'' @ b @ ''.'' @ c" and N: "a \<in> ?N" "b \<in> ?N" "c \<in> ?N"
      by blast
    have d: "''.'' @ c \<in> conc {''.''} ?N"
      by (rule concI) (use N(3) in auto)
    have e: "b @ ''.'' @ c \<in> conc ?N (conc {''.''} ?N)"
      by (rule concI [OF N(2) d])
    have f: "''@'' @ b @ ''.'' @ c \<in> conc {''@''} (conc ?N (conc {''.''} ?N))"
      by (rule concI [OF _ e]) simp
    show "s \<in> lang email_pattern"
      unfolding L s by (rule concI [OF N(1) f])
  qed
  then show ?thesis unfolding matches_lang by blast
qed

lemma email_test_iff:
  "email_test v \<longleftrightarrow>
     (\<exists>a b c. v = Str (a @ ''@'' @ b @ ''.'' @ c) \<and> a \<noteq> [] \<and> b \<noteq> [] \<and> c \<noteq> []
        \<and> (\<forall>x \<in> set a \<union> set b \<union> set c. \<not> is_space x))"
  by (cases v) (auto simp: matches_email_iff)


lemma email_test_ok: "email_test (Str ''b@b.com'')"
  by (simp add: email_pattern_def Plus_def is_space_def)

lemma email_test_bad: "\<not> email_test (Str ''b@bcom'')"
  by (simp add: email_pattern_def Plus_def is_space_def)


section \<open>Conversions\<close>

lemma Number_1: "Number (Str ''1'') = Fin 1"
  by code_simp

lemma Number_abc: "Number (Str ''abc'') = NaN"
  by code_simp

lemma as_int_of_int:
  "- (2 ^ 63) \<le> i \<Longrightarrow> i < 2 ^ 63 \<Longrightarrow> as_int (Fin (of_int i)) = Some i"
  by simp

lemma as_int_range: "as_int n = Some i \<Longrightarrow> - (2 ^ 63) \<le> i \<and> i < 2 ^ 63"
  by (cases n) (auto simp: Let_def split: if_splits)

lemma as_int_None:
  "as_int n = None \<longleftrightarrow>
     n \<in> {NaN, PosInf, NegInf} \<or> (\<exists>r. n = Fin r \<and> (r \<le> - (2 ^ 63) - 1 \<or> 2 ^ 63 \<le> r))"
proof (cases n)
  case (Fin r)
  have "\<not> (- (2 ^ 63) \<le> (if 0 \<le> r then \<lfloor>r\<rfloor> else \<lceil>r\<rceil>) \<and> (if 0 \<le> r then \<lfloor>r\<rfloor> else \<lceil>r\<rceil>) < 2 ^ 63)
          \<longleftrightarrow> r \<le> - (2 ^ 63) - 1 \<or> 2 ^ 63 \<le> r"
  proof (cases "0 \<le> r")
    case True
    then have "0 \<le> \<lfloor>r\<rfloor>" by simp
    moreover have "\<lfloor>r\<rfloor> < 2 ^ 63 \<longleftrightarrow> r < 2 ^ 63"
      using floor_less_iff [of r "2 ^ 63"] by simp
    ultimately show ?thesis using True by auto
  next
    case False
    then have "\<lceil>r\<rceil> \<le> 0" by (simp add: ceiling_le_iff)
    moreover have "- (2 ^ 63) \<le> \<lceil>r\<rceil> \<longleftrightarrow> - (2 ^ 63) - 1 < r"
      using le_ceiling_iff [of "- (2 ^ 63)" r] by simp
    ultimately show ?thesis using False by auto
  qed
  with Fin show ?thesis by (simp add: Let_def)
qed simp_all

lemma as_string_Some: "as_string v = Some s \<longleftrightarrow> v = Str s"
  by (cases v) auto

lemma as_float_Some: "as_float n = Some r \<longleftrightarrow> n = Fin r"
  by (cases n) auto

lemma falsy_cases:
  "\<not> truthy v \<longleftrightarrow> v \<in> {Undefined, Null, Bool False, Num NaN, Num (Fin 0), Str []}"
  by (cases v) auto

lemma opt_string_cases:
  "opt_string v = Some nm \<longleftrightarrow> (v = Undefined \<and> nm = None) \<or> (\<exists>s. v = Str s \<and> nm = Some s)"
  by (cases v) auto

section \<open>Numbers as the handlers and the client read them\<close>

text \<open>
  \<^verbatim>\<open>Number\<close> rounds a numeral to the nearest double and overflows to \<^verbatim>\<open>Infinity\<close>; the
  client cuts the fraction of an identifier off and rejects what does not fit 64 bits.
\<close>

lemma to_double_not_NaN: "to_double p q \<noteq> NaN"
  by (simp add: to_double_def Let_def)

lemma Number_fraction: "Number (Str ''1.5'') = Fin (3 / 2)"
  by code_simp

lemma Number_tenth: "Number (Str ''0.1'') = Fin (3602879701896397 / 36028797018963968)"
  by code_simp

lemma Number_rounds:
  "Number (Str ''1.0000000000000000001'') = Fin 1
   \<and> Number (Str ''9007199254740993'') = Fin 9007199254740992"
  by code_simp

lemma Number_overflow: "Number (Str ''1e400'') = PosInf"
  by code_simp

lemma Number_underflow: "Number (Str ''1e-400'') = Fin 0"
  by code_simp

lemma Number_1e21: "Number (Str ''1e21'') = Fin (10 ^ 21)"
  by code_simp

lemma as_int_fraction: "as_int (Fin (3 / 2)) = Some 1 \<and> as_int (Fin (- 3 / 2)) = Some (- 1)"
  by code_simp

lemma as_int_1e21: "as_int (Fin (10 ^ 21)) = None"
  by code_simp

lemma Number_subnormal:
  "Number (Str ''5e-324'') = Fin (1 / 2 ^ 1074) \<and> Number (Str ''2e-324'') = Fin 0"
  by code_simp

lemma Number_largest:
  "Number (Str ''1.7976931348623158e308'') = Fin (2 ^ 1024 - 2 ^ 971)
   \<and> Number (Str ''1.7976931348623159e308'') = PosInf
   \<and> Number (Str ''-1.7976931348623159e308'') = NegInf"
  by code_simp

lemma as_int_bounds:
  "as_int (Fin (2 ^ 63 - 1)) = Some (2 ^ 63 - 1) \<and> as_int (Fin (2 ^ 63)) = None
   \<and> as_int (Fin (- (2 ^ 63))) = Some (- (2 ^ 63)) \<and> as_int (Fin (- (2 ^ 63) - 1)) = None
   \<and> as_int (Fin (- 1 / 2)) = Some 0"
  by code_simp

text \<open>An integer below \<open>2 ^ 53\<close> in magnitude is a double, and the client reads it as it is.\<close>

lemma round_half_even_one: "round_half_even x 1 = x"
  by (simp add: round_half_even_def)

lemma to_double_pos_int:
  assumes "0 < a" and "a < 2 ^ 53"
  shows "to_double a 1 = Fin (of_int a)" and "to_double (- a) 1 = Fin (- of_int a)"
proof -
  let ?L = "bitlen a"
  from assms(1) have L1: "1 \<le> ?L"
    using bitlen_eq_zero_iff [of a] bitlen_nonneg [of a] by linarith
  from assms(2) have L53: "?L \<le> 53"
    using bitlen_le_iff_power [of a 53] by simp
  have b1: "bitlen 1 = 1" by (simp add: bitlen_alt_def)
  from bitlen_bounds [OF assms(1)] have "2 ^ nat (?L - 1) \<le> a" by simp
  with L1 b1 have bin: "binade a 1 = ?L - 1"
    by (simp add: binade_def Let_def)
  define k where "k = nat (53 - ?L)"
  have u: "max (binade a 1) (- 1022) - 52 = - int k"
    using bin L1 L53 by (simp add: k_def)
  have m: "(if 0 \<le> - int k then round_half_even a (1 * 2 ^ nat (- int k))
            else round_half_even (a * 2 ^ nat (- (- int k))) 1) = a * 2 ^ k"
    by (cases "k = 0") (simp_all add: round_half_even_one)
  have v: "(if 0 \<le> - int k then (of_int (a * 2 ^ k * 2 ^ nat (- int k)) :: rat)
            else of_int (a * 2 ^ k) / of_int (2 ^ nat (- (- int k)))) = of_int a"
    by (cases "k = 0") simp_all
  have bl: "bitlen (a * 2 ^ k) + - int k = ?L"
    using bitlen_pow2 [OF assms(1), of k] by simp
  have le: "\<not> 1024 < ?L" using L53 by simp
  show "to_double a 1 = Fin (of_int a)"
    using assms(1) unfolding to_double_def Let_def
    by (simp only: abs_of_pos u m v bl le) simp
  have na: "\<bar>- a\<bar> = a" using assms(1) by simp
  show "to_double (- a) 1 = Fin (- of_int a)"
    using assms(1) unfolding to_double_def Let_def
    by (simp only: na u m v bl le) simp
qed

lemma to_double_int:
  assumes "\<bar>i\<bar> < 2 ^ 53"
  shows "to_double i 1 = Fin (of_int i)"
proof -
  consider "i = 0" | "0 < i" | "i < 0" by linarith
  then show ?thesis
  proof cases
    case 1
    then show ?thesis by (simp add: to_double_def)
  next
    case 2
    with assms to_double_pos_int(1) [of i] show ?thesis by simp
  next
    case 3
    with assms to_double_pos_int(2) [of "- i"] show ?thesis by simp
  qed
qed

lemma as_int_to_double:
  assumes "\<bar>i\<bar> < 2 ^ 53"
  shows "as_int (to_double i 1) = Some i"
proof -
  from assms have "- (2 ^ 63) \<le> i" "i < 2 ^ 63" by simp_all
  then show ?thesis
    unfolding to_double_int [OF assms] by (rule as_int_of_int)
qed

section \<open>The database calls\<close>

lemma find_None_id: "find (\<lambda>x. f x = i) xs = None \<longleftrightarrow> i \<notin> set (map f xs)"
  by (auto simp: find_None_iff)

lemma find_Some_id: "i \<in> set (map f xs) \<Longrightarrow> \<exists>x. find (\<lambda>x. f x = i) xs = Some x"
  using find_None_id [of f i xs] by fastforce

lemma find_Some_mem: "find P xs = Some x \<Longrightarrow> x \<in> set xs \<and> P x"
  by (auto simp: find_Some_iff)

lemma user_create_Inr:
  "user_create now name email password d = Inr (u, d') \<Longrightarrow>
     name = Str (u_name u) \<and> email = Str (u_email u) \<and> password = Str (u_password u)
     \<and> users d' = users d @ [u] \<and> stores d' = stores d \<and> products d' = products d
     \<and> u_id u = next_user_id d \<and> u_email u \<notin> set (map u_email (users d))"
  by (auto simp: user_create_def Let_def as_string_Some split: option.splits if_splits)

lemma store_create_Inr:
  assumes "store_create name userId d = Inr ((s, u), d')"
  shows "name = Str (s_name s) \<and> as_int userId = Some (s_userId s)
         \<and> find (\<lambda>u. u_id u = s_userId s) (users d) = Some u \<and> s_id s = next_store_id d
         \<and> d' = d\<lparr>stores := stores d @ [s], next_store_id := next_store_id d + 1\<rparr>"
proof -
  from assms obtain n uid where a: "as_string name = Some n" "as_int userId = Some uid"
    by (auto simp: store_create_def split: option.splits)
  then have b: "name = Str n"
    by (simp add: as_string_Some)
  from assms a obtain v where "find (\<lambda>u. u_id u = uid) (users d) = Some v"
    by (auto simp: store_create_def split: option.splits)
  with assms a b show ?thesis
    by (auto simp: store_create_def Let_def)
qed

lemma store_update_Inr:
  assumes "store_update n name userId d = Inr (s, d')"
  shows "\<exists>i s0 nm uid. as_int n = Some i \<and> opt_string name = Some nm \<and> opt_int userId = Some uid
           \<and> find (\<lambda>s. s_id s = i) (stores d) = Some s0
           \<and> s = s0\<lparr>s_name := (case nm of None \<Rightarrow> s_name s0 | Some x \<Rightarrow> x),
                    s_userId := (case uid of None \<Rightarrow> s_userId s0 | Some u \<Rightarrow> u)\<rparr>
           \<and> d' = d\<lparr>stores := map (\<lambda>x. if s_id x = i then s else x) (stores d)\<rparr>"
  using assms
  by (auto simp: store_update_def Let_def split: option.splits if_splits)

lemma store_update_absent:
  assumes "as_int n = Some i" and "i \<notin> set (map s_id (stores d))"
    and "opt_string name \<noteq> None" and "opt_int userId \<noteq> None"
  shows "store_update n name userId d = Inl record_not_found"
proof -
  from assms(2) have "find (\<lambda>s. s_id s = i) (stores d) = None"
    using find_None_id [of s_id i "stores d"] by blast
  with assms show ?thesis
    by (auto simp: store_update_def)
qed

lemma store_update_not_found:
  assumes "store_update n name userId d = Inl e" and "code e = Some ''P2025''"
  shows "\<exists>i. as_int n = Some i \<and> i \<notin> set (map s_id (stores d))
           \<and> opt_string name \<noteq> None \<and> opt_int userId \<noteq> None"
proof -
  from assms obtain i nm uid where a: "as_int n = Some i" "opt_string name = Some nm"
    "opt_int userId = Some uid"
    by (auto simp: store_update_def validation_error_def split: option.splits)
  with assms have "find (\<lambda>s. s_id s = i) (stores d) = None"
    by (auto simp: store_update_def foreign_key_violation_def Let_def
          split: option.splits if_splits)
  then have "i \<notin> set (map s_id (stores d))"
    using find_None_id [of s_id i "stores d"] by blast
  with a show ?thesis by simp
qed

lemma product_create_Inr:
  assumes "product_create now name price storeId upd d = Inr (p, d')"
  shows "name = Str (p_name p) \<and> price = Fin (p_price p) \<and> as_int storeId = Some (p_storeId p)
         \<and> p_updatedAt p = upd \<and> p_createdAt p = now \<and> p_id p = next_product_id d
         \<and> p_storeId p \<in> set (map s_id (stores d))
         \<and> d' = d\<lparr>products := products d @ [p], next_product_id := next_product_id d + 1\<rparr>"
proof -
  from assms obtain n pr sid where a: "as_string name = Some n" "as_float price = Some pr"
    "as_int storeId = Some sid"
    by (auto simp: product_create_def split: option.splits)
  then have b: "name = Str n" "price = Fin pr"
    by (simp_all add: as_string_Some as_float_Some)
  from assms a have "sid \<in> set (map s_id (stores d))"
    by (auto simp: product_create_def split: if_splits)
  with assms a b show ?thesis
    by (auto simp: product_create_def Let_def)
qed

lemma product_create_missing:
  assumes "name = Undefined \<or> price \<in> {NaN, PosInf, NegInf} \<or> storeId = NaN"
  shows "product_create now name price storeId upd d = Inl validation_error"
  using assms by (auto simp: product_create_def split: option.splits)

lemma product_create_ok:
  assumes "as_int storeId = Some sid" and "sid \<in> set (map s_id (stores d))"
  shows "product_create now (Str n) (Fin pr) storeId upd d
           = Inr (\<lparr>p_id = next_product_id d, p_name = n, p_price = pr, p_storeId = sid,
                    p_createdAt = now, p_updatedAt = upd\<rparr>,
                  d\<lparr>products := products d
                         @ [\<lparr>p_id = next_product_id d, p_name = n, p_price = pr, p_storeId = sid,
                             p_createdAt = now, p_updatedAt = upd\<rparr>],
                    next_product_id := next_product_id d + 1\<rparr>)"
  using assms by (simp add: product_create_def Let_def)

lemma product_update_Inr:
  assumes "product_update n name price storeId d = Inr (p, d')"
  shows "\<exists>i p0 nm pr sid. as_int n = Some i \<and> opt_string name = Some nm
           \<and> opt_float price = Some pr \<and> opt_int storeId = Some sid
           \<and> find (\<lambda>p. p_id p = i) (products d) = Some p0
           \<and> p = p0\<lparr>p_name := (case nm of None \<Rightarrow> p_name p0 | Some x \<Rightarrow> x),
                    p_price := (case pr of None \<Rightarrow> p_price p0 | Some x \<Rightarrow> x),
                    p_storeId := (case sid of None \<Rightarrow> p_storeId p0 | Some k \<Rightarrow> k)\<rparr>
           \<and> d' = d\<lparr>products := map (\<lambda>x. if p_id x = i then p else x) (products d)\<rparr>"
proof -
  from assms obtain i nm pr sid where a: "as_int n = Some i" "opt_string name = Some nm"
    "opt_float price = Some pr" "opt_int storeId = Some sid"
    by (auto simp: product_update_def split: option.splits)
  with assms obtain p0 where f: "find (\<lambda>p. p_id p = i) (products d) = Some p0"
    by (auto simp: product_update_def split: option.splits)
  with a assms have "p = p0\<lparr>p_name := (case nm of None \<Rightarrow> p_name p0 | Some x \<Rightarrow> x),
                    p_price := (case pr of None \<Rightarrow> p_price p0 | Some x \<Rightarrow> x),
                    p_storeId := (case sid of None \<Rightarrow> p_storeId p0 | Some k \<Rightarrow> k)\<rparr>
           \<and> d' = d\<lparr>products := map (\<lambda>x. if p_id x = i then p else x) (products d)\<rparr>"
    by (auto simp: product_update_def Let_def split: if_splits)
  with a f show ?thesis by blast
qed

lemma sorted_wrt_products_of:
  "sorted_wrt (\<lambda>a b. p_createdAt a \<ge> p_createdAt b) (products_of i d)"
proof -
  have "sorted (map p_createdAt (sort_key p_createdAt (filter (\<lambda>p. p_storeId p = i) (products d))))"
    by simp
  then have "sorted_wrt (\<lambda>a b. p_createdAt a \<le> p_createdAt b)
               (sort_key p_createdAt (filter (\<lambda>p. p_storeId p = i) (products d)))"
    by (simp add: sorted_map)
  then show ?thesis
    unfolding products_of_def sorted_wrt_rev by simp
qed

lemma mset_products_of:
  "mset (products_of i d) = mset (filter (\<lambda>p. p_storeId p = i) (products d))"
  by (simp add: products_of_def)

lemma errorHandler_validation:
  "errorHandler env validation_error
     = respond 500 (ErrorBody (Text msg_erro_interno)
         (if env = Some ''development'' then Some (MessageOf validation_error) else None))"
  by (simp add: errorHandler_def validation_error_def respond_def)

section \<open>The handlers, case by case\<close>

lemma post_users_status:
  "status (fst (post_users now name email password d)) \<in> {400, 201, 409, 500}"
  by (auto simp: post_users_def respond_def split: sum.splits)

lemma post_users_passed:
  assumes "truthy name" "truthy email" "truthy password" "email_test email"
  shows "status (fst (post_users now name email password d)) \<in> {201, 409, 500}"
  using assms by (auto simp: post_users_def respond_def split: sum.splits)

lemma delete_users_id_absent:
  assumes "as_int (Number (Str idp)) = Some i" and "i \<notin> set (map u_id (users d))"
  shows "delete_users_id env idp d = (respond 404 (ErrorBody (Text msg_usuario) None), d)"
proof -
  from assms(2) have "find (\<lambda>u. u_id u = i) (users d) = None"
    using find_None_id [of u_id i "users d"] by blast
  with assms(1) show ?thesis
    by (simp add: delete_users_id_def user_findUnique_def)
qed

lemma delete_users_id_present:
  assumes "as_int (Number (Str idp)) = Some i" and "i \<in> set (map u_id (users d))"
  shows "delete_users_id env idp d = (respond 204 NoBody, without_user i d)"
proof -
  from find_Some_id [OF assms(2)] obtain u where "find (\<lambda>u. u_id u = i) (users d) = Some u"
    by blast
  with assms(1) show ?thesis
    by (simp add: delete_users_id_def user_findUnique_def user_delete_def)
qed

lemma delete_users_id_invalid:
  assumes "as_int (Number (Str idp)) = None"
  shows "delete_users_id env idp d = (errorHandler env validation_error, d)"
  using assms by (simp add: delete_users_id_def user_findUnique_def)

lemma get_stores_id_invalid:
  assumes "as_int (Number (Str idp)) = None"
  shows "get_stores_id env idp d = (errorHandler env validation_error, d)"
  using assms by (simp add: get_stores_id_def store_findUnique_def)

lemma get_stores_id_absent:
  assumes "as_int (Number (Str idp)) = Some i" and "i \<notin> set (map s_id (stores d))"
  shows "get_stores_id env idp d = (respond 404 (ErrorBody (Text msg_loja) None), d)"
proof -
  from assms(2) have "find (\<lambda>s. s_id s = i) (stores d) = None"
    using find_None_id [of s_id i "stores d"] by blast
  with assms(1) show ?thesis
    by (simp add: get_stores_id_def store_findUnique_def)
qed

lemma get_stores_id_present:
  assumes "as_int (Number (Str idp)) = Some i"
    and "find (\<lambda>s. s_id s = i) (stores d) = Some s"
    and "find (\<lambda>u. u_id u = s_userId s) (users d) = Some u"
  shows "get_stores_id env idp d
           = (respond 200 (StoreDetail s (select_owner u) (products_of i d)), d)"
proof -
  from assms(2) have "s_id s = i" by (auto dest: find_Some_mem)
  with assms show ?thesis
    by (simp add: get_stores_id_def store_findUnique_def)
qed

lemma put_stores_id_ok:
  assumes "put_stores_id idp name userId d = (r, d')" and "status r = 200"
  shows "\<exists>s. store_update (Number (Str idp)) name
                (if truthy userId then Some (Number userId) else None) d = Inr (s, d')
             \<and> r = respond 200 (StoreBody s)"
  using assms
  by (auto simp: put_stores_id_def respond_def split: sum.splits if_splits)

lemma put_stores_id_failed:
  assumes "put_stores_id idp name userId d = (r, d')" and "status r \<noteq> 200"
  shows "d' = d \<and> (\<exists>e. store_update (Number (Str idp)) name
                (if truthy userId then Some (Number userId) else None) d = Inl e
             \<and> r = (if code e = Some ''P2025'' then respond 404 (ErrorBody (Text msg_loja) None)
                    else respond 400 (ErrorBody (MessageOf e) None)))"
  using assms
  by (auto simp: put_stores_id_def respond_def split: sum.splits if_splits)

lemma put_products_id_ok:
  assumes "put_products_id idp name price storeId d = (r, d')" and "status r = 200"
  shows "\<exists>p. product_update (Number (Str idp)) name
                (if truthy price then Some (Number price) else None)
                (if truthy storeId then Some (Number storeId) else None) d = Inr (p, d')
             \<and> r = respond 200 (ProductBody p)"
  using assms
  by (auto simp: put_products_id_def respond_def split: sum.splits if_splits)

lemma get_users_db: "snd (get_users env d) = d"
  by (simp add: get_users_def user_findMany_def)

lemma get_stores_id_db: "snd (get_stores_id env idp d) = d"
  by (auto simp: get_stores_id_def split: sum.splits option.splits)

lemma get_products_db: "snd (get_products d) = d"
  by (auto simp: get_products_def split: sum.splits)

section \<open>The invariants of the data model\<close>

text \<open>
  Every handler that writes to the database keeps \<open>wf_db\<close>, the empty database satisfies
  it, and so does every state the server reaches.
\<close>

lemma wf_user_create:
  assumes "wf_db d" and "user_create now name email password d = Inr (u, d')"
  shows "wf_db d'"
proof -
  from user_create_Inr [OF assms(2)] have u: "users d' = users d @ [u]" "stores d' = stores d"
    "products d' = products d" "u_id u = next_user_id d" "u_email u \<notin> set (map u_email (users d))"
    by simp_all
  from assms(2) have n: "next_user_id d' = next_user_id d + 1" "next_store_id d' = next_store_id d"
    "next_product_id d' = next_product_id d"
    by (auto simp: user_create_def Let_def split: option.splits if_splits)
  from assms(1) u(4) have "u_id u \<notin> set (map u_id (users d))"
    by (auto simp: wf_db_def)
  with assms(1) u n show ?thesis
    by (auto simp: wf_db_def)
qed

lemma post_users_wf:
  assumes "wf_db d"
  shows "wf_db (snd (post_users now name email password d))"
proof (cases "user_create now name email password d")
  case (Inl e)
  with assms show ?thesis by (simp add: post_users_def)
next
  case (Inr x)
  then obtain u d' where "user_create now name email password d = Inr (u, d')"
    by (cases x) auto
  with assms wf_user_create [OF assms this] show ?thesis
    by (simp add: post_users_def)
qed

lemma wf_without_user:
  assumes "wf_db d"
  shows "wf_db (without_user i d)"
proof -
  have "distinct (map u_id (filter (\<lambda>x. u_id x \<noteq> i) (users d)))"
    and "distinct (map s_id (filter (\<lambda>s. s_userId s \<noteq> i) (stores d)))"
    and "distinct (map u_email (filter (\<lambda>x. u_id x \<noteq> i) (users d)))"
    and "distinct (map p_id (filter (\<lambda>p. p_storeId p \<notin> set (map s_id (filter (\<lambda>s. s_userId s = i) (stores d)))) (products d)))"
    using assms by (simp_all add: wf_db_def distinct_map_filter)
  moreover have "\<forall>s \<in> set (filter (\<lambda>s. s_userId s \<noteq> i) (stores d)).
      s_userId s \<in> set (map u_id (filter (\<lambda>x. u_id x \<noteq> i) (users d)))"
    using assms by (auto simp: wf_db_def)
  moreover have "\<forall>p \<in> set (filter (\<lambda>p. p_storeId p \<notin> set (map s_id (filter (\<lambda>s. s_userId s = i) (stores d)))) (products d)).
      p_storeId p \<in> set (map s_id (filter (\<lambda>s. s_userId s \<noteq> i) (stores d)))"
  proof
    fix p
    assume "p \<in> set (filter (\<lambda>p. p_storeId p \<notin> set (map s_id (filter (\<lambda>s. s_userId s = i) (stores d)))) (products d))"
    then have p: "p \<in> set (products d)"
      and g: "p_storeId p \<notin> set (map s_id (filter (\<lambda>s. s_userId s = i) (stores d)))"
      by simp_all
    from p assms obtain s where s: "s \<in> set (stores d)" "s_id s = p_storeId p"
      by (auto simp: wf_db_def)
    with g have "s_userId s \<noteq> i" by force
    with s show "p_storeId p \<in> set (map s_id (filter (\<lambda>s. s_userId s \<noteq> i) (stores d)))"
      by force
  qed
  ultimately show ?thesis
    using assms by (simp add: wf_db_def without_user_def)
qed

lemma delete_users_id_wf:
  assumes "wf_db d"
  shows "wf_db (snd (delete_users_id env idp d))"
proof (cases "as_int (Number (Str idp))")
  case None
  with assms show ?thesis by (simp add: delete_users_id_invalid)
next
  case (Some i)
  with assms show ?thesis
    by (cases "i \<in> set (map u_id (users d))")
       (simp_all add: delete_users_id_absent delete_users_id_present wf_without_user)
qed

lemma post_stores_wf:
  assumes "wf_db d"
  shows "wf_db (snd (post_stores env name userId d))"
proof (cases "\<exists>s u d'. store_create name (Number userId) d = Inr ((s, u), d')
                \<and> snd (post_stores env name userId d) = d'")
  case True
  then obtain s u d' where c: "store_create name (Number userId) d = Inr ((s, u), d')"
    and r: "snd (post_stores env name userId d) = d'"
    by blast
  from store_create_Inr [OF c] have f: "find (\<lambda>u. u_id u = s_userId s) (users d) = Some u"
    and i: "s_id s = next_store_id d"
    and d': "d' = d\<lparr>stores := stores d @ [s], next_store_id := next_store_id d + 1\<rparr>"
    by simp_all
  from find_Some_mem [OF f] have "s_userId s \<in> set (map u_id (users d))" by force
  moreover from assms i have "s_id s \<notin> set (map s_id (stores d))" by (auto simp: wf_db_def)
  ultimately have "wf_db d'" using assms i by (auto simp: d' wf_db_def)
  with r show ?thesis by simp
next
  case False
  then have "snd (post_stores env name userId d) = d"
    by (auto simp: post_stores_def split: sum.splits option.splits)
  with assms show ?thesis by simp
qed

lemma map_update_ids:
  assumes "f y = i"
  shows "map f (map (\<lambda>x. if f x = i then y else x) xs) = map f xs"
  using assms by (induction xs) auto

lemma wf_store_update:
  assumes "wf_db d" and "store_update n name userId d = Inr (s, d')"
  shows "wf_db d'"
proof -
  from store_update_Inr [OF assms(2)] obtain i s0 nm uid where
    f: "find (\<lambda>s. s_id s = i) (stores d) = Some s0"
    and s: "s = s0\<lparr>s_name := (case nm of None \<Rightarrow> s_name s0 | Some x \<Rightarrow> x),
                  s_userId := (case uid of None \<Rightarrow> s_userId s0 | Some u \<Rightarrow> u)\<rparr>"
    and d': "d' = d\<lparr>stores := map (\<lambda>x. if s_id x = i then s else x) (stores d)\<rparr>"
    and ui: "opt_int userId = Some uid" and ni: "as_int n = Some i" and nn: "opt_string name = Some nm"
    by blast
  from f have m: "s0 \<in> set (stores d)" "s_id s0 = i" by (auto dest: find_Some_mem)
  with s have i: "s_id s = i" by simp
  have ids: "map s_id (stores d') = map s_id (stores d)"
    unfolding d' using map_update_ids [of s_id s i "stores d"] i by simp
  have fk: "s_userId s \<in> set (map u_id (users d))"
  proof (cases uid)
    case None
    with s m assms(1) show ?thesis by (simp add: wf_db_def)
  next
    case (Some u)
    with assms(2) ni nn ui f have "u \<in> set (map u_id (users d))"
      by (auto simp: store_update_def Let_def split: if_splits)
    with s Some show ?thesis by simp
  qed
  have "\<forall>x \<in> set (stores d'). s_userId x \<in> set (map u_id (users d'))"
    using assms(1) fk by (auto simp: d' wf_db_def)
  moreover have "\<forall>x \<in> set (stores d'). s_id x < next_store_id d'"
    using assms(1) i m by (auto simp: d' wf_db_def)
  moreover have "distinct (map s_id (stores d'))"
    using assms(1) ids by (simp add: wf_db_def)
  moreover have "users d' = users d" "products d' = products d"
    "next_user_id d' = next_user_id d" "next_store_id d' = next_store_id d"
    "next_product_id d' = next_product_id d"
    by (simp_all add: d')
  moreover have "set (map s_id (stores d')) = set (map s_id (stores d))"
    using ids by simp
  ultimately show ?thesis
    using assms(1) unfolding wf_db_def by simp
qed

lemma put_stores_id_wf:
  assumes "wf_db d"
  shows "wf_db (snd (put_stores_id idp name userId d))"
proof (cases "store_update (Number (Str idp)) name (if truthy userId then Some (Number userId) else None) d")
  case (Inl e)
  with assms show ?thesis by (simp add: put_stores_id_def)
next
  case (Inr x)
  then obtain s d' where u: "store_update (Number (Str idp)) name
      (if truthy userId then Some (Number userId) else None) d = Inr (s, d')"
    by (cases x) auto
  from wf_store_update [OF assms u] u show ?thesis
    by (simp add: put_stores_id_def)
qed

lemma delete_stores_id_wf:
  assumes "wf_db d"
  shows "wf_db (snd (delete_stores_id idp d))"
proof (cases "store_delete (Number (Str idp)) d")
  case (Inl e)
  with assms show ?thesis by (simp add: delete_stores_id_def)
next
  case (Inr x)
  then obtain s d' where c: "store_delete (Number (Str idp)) d = Inr (s, d')"
    by (cases x) auto
  then obtain i where d': "d' = d\<lparr>stores := filter (\<lambda>x. s_id x \<noteq> i) (stores d),
                                   products := filter (\<lambda>p. p_storeId p \<noteq> i) (products d)\<rparr>"
    by (auto simp: store_delete_def split: option.splits)
  have "wf_db d'"
    using assms unfolding d' wf_db_def by (auto simp: distinct_map_filter)
  with c show ?thesis by (simp add: delete_stores_id_def)
qed

lemma post_products_wf:
  assumes "wf_db d"
  shows "wf_db (snd (post_products now created name price storeId d))"
proof (cases "product_create created name (Number price) (Number storeId) now d")
  case (Inl e)
  with assms show ?thesis by (simp add: post_products_def)
next
  case (Inr x)
  then obtain p d' where c: "product_create created name (Number price) (Number storeId) now d = Inr (p, d')"
    by (cases x) auto
  from product_create_Inr [OF c] have p: "p_id p = next_product_id d"
    "p_storeId p \<in> set (map s_id (stores d))"
    "d' = d\<lparr>products := products d @ [p], next_product_id := next_product_id d + 1\<rparr>"
    by simp_all
  from assms p(1) have "p_id p \<notin> set (map p_id (products d))"
    by (auto simp: wf_db_def)
  with assms p have "wf_db d'"
    by (auto simp: wf_db_def)
  with c show ?thesis by (simp add: post_products_def)
qed

lemma wf_product_update:
  assumes "wf_db d" and "product_update n name price storeId d = Inr (p, d')"
  shows "wf_db d'"
proof -
  from product_update_Inr [OF assms(2)] obtain i p0 nm pr sid where
    f: "find (\<lambda>p. p_id p = i) (products d) = Some p0"
    and p: "p = p0\<lparr>p_name := (case nm of None \<Rightarrow> p_name p0 | Some x \<Rightarrow> x),
                  p_price := (case pr of None \<Rightarrow> p_price p0 | Some x \<Rightarrow> x),
                  p_storeId := (case sid of None \<Rightarrow> p_storeId p0 | Some k \<Rightarrow> k)\<rparr>"
    and d': "d' = d\<lparr>products := map (\<lambda>x. if p_id x = i then p else x) (products d)\<rparr>"
    and a: "as_int n = Some i" "opt_string name = Some nm" "opt_float price = Some pr"
           "opt_int storeId = Some sid"
    by blast
  from f have m: "p0 \<in> set (products d)" "p_id p0 = i" by (auto dest: find_Some_mem)
  with p have i: "p_id p = i" by simp
  have ids: "map p_id (products d') = map p_id (products d)"
    unfolding d' using map_update_ids [of p_id p i "products d"] i by simp
  have fk: "p_storeId p \<in> set (map s_id (stores d))"
  proof (cases sid)
    case None
    with p m assms(1) show ?thesis by (simp add: wf_db_def)
  next
    case (Some k)
    with assms(2) a f have "k \<in> set (map s_id (stores d))"
      by (auto simp: product_update_def Let_def split: if_splits)
    with p Some show ?thesis by simp
  qed
  have "\<forall>x \<in> set (products d'). p_storeId x \<in> set (map s_id (stores d'))"
    using assms(1) fk by (auto simp: d' wf_db_def)
  moreover have "\<forall>x \<in> set (products d'). p_id x < next_product_id d'"
    using assms(1) i m by (auto simp: d' wf_db_def)
  moreover have "distinct (map p_id (products d'))"
    using assms(1) ids by (simp add: wf_db_def)
  moreover have "users d' = users d" "stores d' = stores d"
    "next_user_id d' = next_user_id d" "next_store_id d' = next_store_id d"
    "next_product_id d' = next_product_id d"
    by (simp_all add: d')
  ultimately show ?thesis
    using assms(1) unfolding wf_db_def by simp
qed

lemma put_products_id_wf:
  assumes "wf_db d"
  shows "wf_db (snd (put_products_id idp name price storeId d))"
proof (cases "product_update (Number (Str idp)) name
                (if truthy price then Some (Number price) else None)
                (if truthy storeId then Some (Number storeId) else None) d")
  case (Inl e)
  with assms show ?thesis by (simp add: put_products_id_def)
next
  case (Inr x)
  then obtain p d' where u: "product_update (Number (Str idp)) name
                (if truthy price then Some (Number price) else None)
                (if truthy storeId then Some (Number storeId) else None) d = Inr (p, d')"
    by (cases x) auto
  from wf_product_update [OF assms u] u show ?thesis
    by (simp add: put_products_id_def)
qed

lemma delete_products_id_wf:
  assumes "wf_db d"
  shows "wf_db (snd (delete_products_id idp d))"
proof (cases "product_delete (Number (Str idp)) d")
  case (Inl e)
  with assms show ?thesis by (simp add: delete_products_id_def)
next
  case (Inr x)
  then obtain p d' where c: "product_delete (Number (Str idp)) d = Inr (p, d')"
    by (cases x) auto
  then obtain i where d': "d' = d\<lparr>products := filter (\<lambda>x. p_id x \<noteq> i) (products d)\<rparr>"
    by (auto simp: product_delete_def split: option.splits)
  have "wf_db d'"
    using assms unfolding d' wf_db_def by (auto simp: distinct_map_filter)
  with c show ?thesis by (simp add: delete_products_id_def)
qed

lemma handle_wf:
  assumes "wf_db d"
  shows "wf_db (snd (handle env r d))"
  using assms
  by (cases r)
     (simp_all add: post_users_wf get_users_db delete_users_id_wf post_stores_wf
        get_stores_id_db put_stores_id_wf delete_stores_id_wf post_products_wf
        get_products_db put_products_id_wf delete_products_id_wf)

lemma wf_empty_db: "wf_db empty_db"
  by (simp add: wf_db_def empty_db_def)

lemma reachable_invariants: "reachable env d \<Longrightarrow> wf_db d"
  by (induction rule: reachable.induct) (simp_all add: wf_empty_db handle_wf)

lemma reachable_steps:
  "reachable env d \<Longrightarrow> reachable env (foldl (\<lambda>d r. snd (handle env r d)) d rs)"
  by (induction rs arbitrary: d) (auto intro: reachable.step)

lemma example_db_requests:
  "example_db =
     foldl (\<lambda>d r. snd (handle None r d)) empty_db
       [PostUsers 5 (Str ''A'') (Str ''a@a.com'') (Str ''p''),
        PostStores (Str ''S'') (Num (Fin 1)),
        PostProducts 7 7 (Str ''P'') (Num (Fin 10)) (Num (Fin 1)),
        PostProducts 9 9 (Str ''Q'') (Str ''1.5'') (Str ''1'')]"
  by code_simp

lemma reachable_example_db: "reachable None example_db"
  unfolding example_db_requests by (rule reachable_steps) (rule reachable.start)

lemma wf_example_db: "wf_db example_db"
  by (simp add: wf_db_def example_db_def)

lemma wf_two_owner_db: "wf_db two_owner_db"
  by (simp add: wf_db_def two_owner_db_def)

lemma wf_owner_exists:
  assumes "wf_db d" and "find (\<lambda>s. s_id s = i) (stores d) = Some s"
  shows "\<exists>u. find (\<lambda>u. u_id u = s_userId s) (users d) = Some u"
proof -
  from assms(2) have "s \<in> set (stores d)" by (auto dest: find_Some_mem)
  with assms(1) have "s_userId s \<in> set (map u_id (users d))" by (simp add: wf_db_def)
  then show ?thesis by (rule find_Some_id)
qed

text \<open>
  In every state the server reaches, emails and identifiers are unique and every store
  and product refers to a record that is there.
\<close>

theorem reachable_respects_data_model:
  assumes "reachable env d"
  shows "distinct (map u_email (users d))
         \<and> distinct (map u_id (users d)) \<and> distinct (map s_id (stores d))
         \<and> distinct (map p_id (products d))
         \<and> (\<forall>s \<in> set (stores d). s_userId s \<in> set (map u_id (users d)))
         \<and> (\<forall>p \<in> set (products d). p_storeId p \<in> set (map s_id (stores d)))"
  using reachable_invariants [OF assms] by (simp add: wf_db_def)

theorem reachable_respects_data_model_witness:
  "distinct (map u_email (users example_db))
   \<and> set (map s_userId (stores example_db)) \<subseteq> set (map u_id (users example_db))
   \<and> set (map p_storeId (products example_db)) \<subseteq> set (map s_id (stores example_db))"
  using reachable_respects_data_model [OF reachable_example_db] by auto

section \<open>The end-to-end scenario of the spec\<close>

text \<open>
  The scenario of the spec's testable properties, run on the model from the empty
  database: a user is created, a store for it, the store is read (with its owner and no
  products), a product is created in it, and the product list holds that product with its
  store and that store's user.
\<close>

lemma end_to_end:
  "(let (r1, d1) = post_users 1 (Str ''A'') (Str ''a@a.com'') (Str ''p'') empty_db;
        (r2, d2) = post_stores None (Str ''S'') (Num (Fin 1)) d1;
        (r3, d3) = get_stores_id None ''1'' d2;
        (r4, d4) = post_products 2 3 (Str ''P'') (Num (Fin 10)) (Num (Fin 1)) d3;
        (r5, d5) = get_products d4;
        u = \<lparr>u_id = 1, u_name = ''A'', u_email = ''a@a.com'', u_password = ''p'',
             u_createdAt = 1, u_updatedAt = 1\<rparr>;
        s = \<lparr>s_id = 1, s_name = ''S'', s_userId = 1\<rparr>;
        p = \<lparr>p_id = 1, p_name = ''P'', p_price = 10, p_storeId = 1,
             p_createdAt = 3, p_updatedAt = 2\<rparr>
    in r1 = respond 201 (UserBody u)
       \<and> r2 = respond 201 (StoreWithUser s u)
       \<and> r3 = respond 200 (StoreDetail s (select_owner u) [])
       \<and> r4 = respond 201 (ProductBody p)
       \<and> r5 = respond 200 (ProductsBody [(p, s, u)]))"
  by code_simp

section \<open>Identifiers with a fraction, and identifiers out of range\<close>

text \<open>
  The client reads 1.5 as the identifier 1 and 2.5 as 2, and rejects \<^verbatim>\<open>1e21\<close>.  So
  GET /stores/1.5 and PUT /stores/1.5 reach the store 1, a PUT with the \<open>userId\<close> 2.5
  gives the store to the user 2, and GET /stores/1e21 and PUT /stores/1e21 fail with
  the catch's status, 500 and 400.
\<close>

lemma get_stores_id_fraction:
  "get_stores_id None ''1.5'' example_db = get_stores_id None ''1'' example_db
   \<and> status (fst (get_stores_id None ''1.5'' example_db)) = 200"
  by code_simp

lemma get_stores_id_out_of_range:
  "get_stores_id None ''1e21'' example_db
     = (respond 500 (ErrorBody (Text msg_erro_interno) None), example_db)"
  by code_simp

lemma put_stores_id_fraction:
  "put_stores_id ''1.5'' (Str ''T'') Undefined example_db
     = (respond 200 (StoreBody \<lparr>s_id = 1, s_name = ''T'', s_userId = 1\<rparr>),
        example_db\<lparr>stores := [\<lparr>s_id = 1, s_name = ''T'', s_userId = 1\<rparr>]\<rparr>)"
  by code_simp

lemma put_stores_id_userId_fraction:
  "fst (put_stores_id ''1'' Undefined (Str ''2.5'') two_owner_db)
     = respond 200 (StoreBody \<lparr>s_id = 1, s_name = ''S'', s_userId = 2\<rparr>)"
  by code_simp

lemma put_stores_id_out_of_range:
  "put_stores_id ''1e21'' (Str ''T'') Undefined example_db
     = (respond 400 (ErrorBody (MessageOf validation_error) None), example_db)"
  by code_simp

section \<open>The error mapper (C1)\<close>

text \<open>
  C1, as the code has it.  For every error \<open>e\<close> of the database layer, \<open>errorHandler\<close>
  answers: 409 with the fixed conflict message when the code is P2002, with the names of
  \<^verbatim>\<open>e.meta.target\<close> joined by a comma in \<^verbatim>\<open>detail\<close> when the error carries them, and with
  no \<^verbatim>\<open>detail\<close> when the error has no \<^verbatim>\<open>meta\<close> or its \<^verbatim>\<open>meta\<close> has no \<^verbatim>\<open>target\<close>; 404
  with the fixed not-found message when the code is P2025; 400 with the detail
  \<open>msg_id_referenciado\<close> (the referenced id does not exist) when the code is P2003; 500
  with a fixed message for every other error.  The 500 body carries the error's message
  exactly when \<^verbatim>\<open>NODE_ENV\<close> is \<^verbatim>\<open>development\<close>, so never in production mode.
\<close>

theorem errorHandler_mapping:
  "(code e = Some ''P2002'' \<and> meta e = Some m \<and> target m = Some names \<longrightarrow>
      errorHandler env e
        = respond 409 (ErrorBody (Text msg_conflito) (Some (Text (join '', '' names)))))
   \<and> (code e = Some ''P2002'' \<and> (meta e = None \<or> (meta e = Some m \<and> target m = None)) \<longrightarrow>
        errorHandler env e = respond 409 (ErrorBody (Text msg_conflito) None))
   \<and> (code e = Some ''P2025'' \<longrightarrow>
        errorHandler env e = respond 404 (ErrorBody (Text msg_recurso) None))
   \<and> (code e = Some ''P2003'' \<longrightarrow>
        errorHandler env e
          = respond 400 (ErrorBody (Text msg_violacao) (Some (Text msg_id_referenciado))))
   \<and> (code e \<notin> {Some ''P2002'', Some ''P2025'', Some ''P2003''} \<longrightarrow>
        errorHandler env e
          = respond 500
              (ErrorBody (Text msg_erro_interno)
                 (if env = Some ''development'' then Some (MessageOf e) else None)))
   \<and> (env \<noteq> Some ''development'' \<and> status (errorHandler env e) = 500 \<longrightarrow>
        body (errorHandler env e) = ErrorBody (Text msg_erro_interno) None)"
proof (intro conjI impI)
  assume "code e = Some ''P2002'' \<and> meta e = Some m \<and> target m = Some names"
  then show "errorHandler env e
        = respond 409 (ErrorBody (Text msg_conflito) (Some (Text (join '', '' names))))"
    by (simp add: errorHandler_def respond_def)
next
  assume "code e = Some ''P2002'' \<and> (meta e = None \<or> (meta e = Some m \<and> target m = None))"
  then show "errorHandler env e = respond 409 (ErrorBody (Text msg_conflito) None)"
    by (auto simp: errorHandler_def respond_def)
next
  assume "code e = Some ''P2025''"
  then show "errorHandler env e = respond 404 (ErrorBody (Text msg_recurso) None)"
    by (simp add: errorHandler_def respond_def)
next
  assume "code e = Some ''P2003''"
  then show "errorHandler env e
          = respond 400 (ErrorBody (Text msg_violacao) (Some (Text msg_id_referenciado)))"
    by (simp add: errorHandler_def respond_def)
next
  assume "code e \<notin> {Some ''P2002'', Some ''P2025'', Some ''P2003''}"
  then show "errorHandler env e
          = respond 500
              (ErrorBody (Text msg_erro_interno)
                 (if env = Some ''development'' then Some (MessageOf e) else None))"
    by (simp add: errorHandler_def respond_def)
next
  assume "env \<noteq> Some ''development'' \<and> status (errorHandler env e) = 500"
  then show "body (errorHandler env e) = ErrorBody (Text msg_erro_interno) None"
    by (simp add: errorHandler_def split: if_splits)
qed

theorem errorHandler_mapping_witness:
  "errorHandler (Some ''production'') (unique_violation [''email'', ''name''])
     = respond 409 (ErrorBody (Text msg_conflito) (Some (Text ''email, name'')))
   \<and> errorHandler (Some ''production'') \<lparr>code = Some ''P2002'', meta = None\<rparr>
     = respond 409 (ErrorBody (Text msg_conflito) None)
   \<and> errorHandler (Some ''production'') \<lparr>code = Some ''P2002'', meta = Some \<lparr>target = None\<rparr>\<rparr>
     = respond 409 (ErrorBody (Text msg_conflito) None)
   \<and> errorHandler (Some ''production'') record_not_found
     = respond 404 (ErrorBody (Text msg_recurso) None)
   \<and> errorHandler (Some ''production'') foreign_key_violation
     = respond 400 (ErrorBody (Text msg_violacao) (Some (Text msg_id_referenciado)))
   \<and> errorHandler (Some ''production'') validation_error
     = respond 500 (ErrorBody (Text msg_erro_interno) None)
   \<and> body (errorHandler (Some ''production'') validation_error)
     = ErrorBody (Text msg_erro_interno) None
   \<and> errorHandler (Some ''development'') validation_error
     = respond 500 (ErrorBody (Text msg_erro_interno) (Some (MessageOf validation_error)))"
  using errorHandler_mapping [where e = "unique_violation [''email'', ''name'']"
          and m = "\<lparr>target = Some [''email'', ''name'']\<rparr>" and names = "[''email'', ''name'']"
          and env = "Some ''production''"]
        errorHandler_mapping [where e = "\<lparr>code = Some ''P2002'', meta = None\<rparr>"
          and env = "Some ''production''"]
        errorHandler_mapping [where e = "\<lparr>code = Some ''P2002'', meta = Some \<lparr>target = None\<rparr>\<rparr>"
          and m = "\<lparr>target = None\<rparr>" and env = "Some ''production''"]
        errorHandler_mapping [where e = record_not_found and env = "Some ''production''"]
        errorHandler_mapping [where e = foreign_key_violation and env = "Some ''production''"]
        errorHandler_mapping [where e = validation_error and env = "Some ''production''"]
        errorHandler_mapping [where e = validation_error and env = "Some ''development''"]
  by (simp add: unique_violation_def record_not_found_def foreign_key_violation_def
        validation_error_def respond_def)

text \<open>
  C1 as stated fails: a P2002 error that has no \<^verbatim>\<open>meta\<close>, or whose \<^verbatim>\<open>meta\<close> has no
  \<^verbatim>\<open>target\<close>, is answered 409 with no field name in the body.
\<close>

theorem errorHandler_conflict_without_names:
  "errorHandler None \<lparr>code = Some ''P2002'', meta = None\<rparr>
     = \<lparr>status = 409, body = ErrorBody (Text msg_conflito) None\<rparr>
   \<and> errorHandler None \<lparr>code = Some ''P2002'', meta = Some \<lparr>target = None\<rparr>\<rparr>
     = \<lparr>status = 409, body = ErrorBody (Text msg_conflito) None\<rparr>"
  by (simp add: errorHandler_def)

section \<open>Creating a user with a duplicate email (C2)\<close>



section \<open>Creating a user without a required field (C3)\<close>

text \<open>
  C3.  A POST /users request whose \<open>name\<close>, \<open>email\<close> or \<open>password\<close> is falsy, as a
  missing field (\<open>Undefined\<close>) and the empty string are, is answered 400 with the
  missing-fields message, and the database is left as it was: no user is created.
\<close>

theorem post_users_missing_field:
  "(\<not> truthy name \<or> \<not> truthy email \<or> \<not> truthy password \<longrightarrow>
      post_users now name email password d
        = (respond 400 (ErrorBody (Text msg_campos) None), d))
   \<and> \<not> truthy Undefined \<and> \<not> truthy (Str [])"
proof (intro conjI impI)
  assume "\<not> truthy name \<or> \<not> truthy email \<or> \<not> truthy password"
  then show "post_users now name email password d
        = (respond 400 (ErrorBody (Text msg_campos) None), d)"
    unfolding post_users_def by (rule if_P)
next
  show "\<not> truthy Undefined" by simp
next
  show "\<not> truthy (Str [])" by simp
qed

theorem post_users_missing_field_witness:
  "post_users 10 (Str ''B'') Undefined (Str ''x'') example_db
     = (respond 400 (ErrorBody (Text msg_campos) None), example_db)
   \<and> post_users 10 (Str ''B'') (Str ''b@b.com'') (Str []) example_db
     = (respond 400 (ErrorBody (Text msg_campos) None), example_db)"
  using post_users_missing_field [of "Str ''B''" Undefined "Str ''x''" 10 example_db]
        post_users_missing_field [of "Str ''B''" "Str ''b@b.com''" "Str []" 10 example_db]
  by simp

section \<open>Updating a store (C4)\<close>

text \<open>
  C4, as the code has it.  For a PUT /stores/:id request: with only a name in the body
  and an id that the client reads as the identifier of a store, the answer is 200 with
  the store renamed and its \<open>userId\<close> as it was; on every 200 answer a \<open>name\<close> that was
  not supplied and a \<open>userId\<close> that was not supplied (or falsy) keep their stored values,
  the identifier stays, and users, products and all other stores are left as they were;
  when the client accepts the id, the name and the \<open>userId\<close>, and no store has the
  identifier it reads from the id, the answer is 404, and it is 404 only when no store has
  that identifier; every other failure (an argument that the client rejects, as a name
  that is not a string, or a \<open>userId\<close> that no user has) is answered 400 with the raw
  message of the error, and the database is left as it was.
\<close>

theorem put_stores_id_partial_update:
  "(as_int (Number (Str idp)) = Some i \<and> find (\<lambda>s. s_id s = i) (stores d) = Some s0 \<longrightarrow>
      put_stores_id idp (Str n) Undefined d
        = (respond 200 (StoreBody (s0\<lparr>s_name := n\<rparr>)),
           d\<lparr>stores := map (\<lambda>x. if s_id x = i then s0\<lparr>s_name := n\<rparr> else x) (stores d)\<rparr>))
   \<and> (put_stores_id idp name userId d = (r, d') \<and> status r = 200 \<longrightarrow>
        (\<exists>j t0 t. as_int (Number (Str idp)) = Some j
           \<and> find (\<lambda>s. s_id s = j) (stores d) = Some t0
           \<and> body r = StoreBody t \<and> s_id t = s_id t0
           \<and> (name = Undefined \<longrightarrow> s_name t = s_name t0)
           \<and> (\<not> truthy userId \<longrightarrow> s_userId t = s_userId t0)
           \<and> stores d' = map (\<lambda>x. if s_id x = j then t else x) (stores d)
           \<and> users d' = users d \<and> products d' = products d))
   \<and> (as_int (Number (Str idp)) = Some i \<and> i \<notin> set (map s_id (stores d))
        \<and> opt_string name \<noteq> None \<and> (truthy userId \<longrightarrow> as_int (Number userId) \<noteq> None) \<longrightarrow>
        put_stores_id idp name userId d = (respond 404 (ErrorBody (Text msg_loja) None), d))
   \<and> (put_stores_id idp name userId d = (r, d') \<and> status r = 404 \<longrightarrow>
        (\<exists>j. as_int (Number (Str idp)) = Some j \<and> j \<notin> set (map s_id (stores d))))
   \<and> (put_stores_id idp name userId d = (r, d') \<and> status r \<noteq> 200 \<and> status r \<noteq> 404 \<longrightarrow>
        d' = d
        \<and> (\<exists>e. store_update (Number (Str idp)) name
                  (if truthy userId then Some (Number userId) else None) d = Inl e
               \<and> code e \<noteq> Some ''P2025''
               \<and> r = respond 400 (ErrorBody (MessageOf e) None)))"
proof (intro conjI impI)
  assume a: "as_int (Number (Str idp)) = Some i \<and> find (\<lambda>s. s_id s = i) (stores d) = Some s0"
  then show "put_stores_id idp (Str n) Undefined d
        = (respond 200 (StoreBody (s0\<lparr>s_name := n\<rparr>)),
           d\<lparr>stores := map (\<lambda>x. if s_id x = i then s0\<lparr>s_name := n\<rparr> else x) (stores d)\<rparr>)"
    by (simp add: put_stores_id_def store_update_def Let_def del: Number.simps(5))
next
  assume a: "put_stores_id idp name userId d = (r, d') \<and> status r = 200"
  then obtain t where u: "store_update (Number (Str idp)) name
                (if truthy userId then Some (Number userId) else None) d = Inr (t, d')"
    and r: "r = respond 200 (StoreBody t)"
    using put_stores_id_ok by blast
  from store_update_Inr [OF u] obtain j t0 nm uid where
    j: "as_int (Number (Str idp)) = Some j" and nm: "opt_string name = Some nm"
    and uid: "opt_int (if truthy userId then Some (Number userId) else None) = Some uid"
    and f: "find (\<lambda>s. s_id s = j) (stores d) = Some t0"
    and t: "t = t0\<lparr>s_name := (case nm of None \<Rightarrow> s_name t0 | Some x \<Rightarrow> x),
                  s_userId := (case uid of None \<Rightarrow> s_userId t0 | Some u \<Rightarrow> u)\<rparr>"
    and d': "d' = d\<lparr>stores := map (\<lambda>x. if s_id x = j then t else x) (stores d)\<rparr>"
    by blast
  have 1: "name = Undefined \<longrightarrow> s_name t = s_name t0"
    using nm t by auto
  have 2: "\<not> truthy userId \<longrightarrow> s_userId t = s_userId t0"
    using uid t by auto
  have 3: "s_id t = s_id t0" using t by simp
  have 4: "body r = StoreBody t" using r by (simp add: respond_def)
  have 5: "stores d' = map (\<lambda>x. if s_id x = j then t else x) (stores d)
           \<and> users d' = users d \<and> products d' = products d"
    using d' by simp
  from j f 1 2 3 4 5
  show "\<exists>j t0 t. as_int (Number (Str idp)) = Some j
           \<and> find (\<lambda>s. s_id s = j) (stores d) = Some t0
           \<and> body r = StoreBody t \<and> s_id t = s_id t0
           \<and> (name = Undefined \<longrightarrow> s_name t = s_name t0)
           \<and> (\<not> truthy userId \<longrightarrow> s_userId t = s_userId t0)
           \<and> stores d' = map (\<lambda>x. if s_id x = j then t else x) (stores d)
           \<and> users d' = users d \<and> products d' = products d"
    by blast
next
  assume a: "as_int (Number (Str idp)) = Some i \<and> i \<notin> set (map s_id (stores d))
        \<and> opt_string name \<noteq> None \<and> (truthy userId \<longrightarrow> as_int (Number userId) \<noteq> None)"
  then have "opt_int (if truthy userId then Some (Number userId) else None) \<noteq> None"
    by auto
  with a have "store_update (Number (Str idp)) name
                (if truthy userId then Some (Number userId) else None) d = Inl record_not_found"
    using store_update_absent [of "Number (Str idp)" i d name
            "if truthy userId then Some (Number userId) else None"]
    by blast
  then show "put_stores_id idp name userId d = (respond 404 (ErrorBody (Text msg_loja) None), d)"
    by (simp add: put_stores_id_def record_not_found_def del: Number.simps(5))
next
  assume a: "put_stores_id idp name userId d = (r, d') \<and> status r = 404"
  with put_stores_id_failed [of idp name userId d r d']
  obtain e where e: "store_update (Number (Str idp)) name
                  (if truthy userId then Some (Number userId) else None) d = Inl e"
    and r: "r = (if code e = Some ''P2025'' then respond 404 (ErrorBody (Text msg_loja) None)
                 else respond 400 (ErrorBody (MessageOf e) None))"
    by auto
  from a r have "code e = Some ''P2025''"
    by (auto simp: respond_def split: if_splits)
  from store_update_not_found [OF e this]
  show "\<exists>j. as_int (Number (Str idp)) = Some j \<and> j \<notin> set (map s_id (stores d))"
    by blast
next
  assume a: "put_stores_id idp name userId d = (r, d') \<and> status r \<noteq> 200 \<and> status r \<noteq> 404"
  with put_stores_id_failed [of idp name userId d r d']
  show "d' = d" by blast
next
  assume a: "put_stores_id idp name userId d = (r, d') \<and> status r \<noteq> 200 \<and> status r \<noteq> 404"
  with put_stores_id_failed [of idp name userId d r d']
  show "\<exists>e. store_update (Number (Str idp)) name
                  (if truthy userId then Some (Number userId) else None) d = Inl e
               \<and> code e \<noteq> Some ''P2025''
               \<and> r = respond 400 (ErrorBody (MessageOf e) None)"
    by (auto simp: respond_def split: if_splits)
qed

theorem put_stores_id_partial_update_witness:
  "put_stores_id ''1'' (Str ''T'') Undefined example_db
     = (respond 200 (StoreBody \<lparr>s_id = 1, s_name = ''T'', s_userId = 1\<rparr>),
        example_db\<lparr>stores := [\<lparr>s_id = 1, s_name = ''T'', s_userId = 1\<rparr>]\<rparr>)
   \<and> (\<exists>t. body (fst (put_stores_id ''1'' Undefined (Num (Fin 1)) example_db)) = StoreBody t
          \<and> s_name t = ''S'')
   \<and> put_stores_id ''7'' (Str ''T'') Undefined example_db
     = (respond 404 (ErrorBody (Text msg_loja) None), example_db)
   \<and> fst (put_stores_id ''1'' (Str ''T'') (Num (Fin 9)) example_db)
     = respond 400 (ErrorBody (MessageOf foreign_key_violation) None)"
proof -
  let ?s = "\<lparr>s_id = 1, s_name = ''S'', s_userId = 1\<rparr>"
  have 1: "as_int (Number (Str ''1'')) = Some 1" by code_simp
  have 7: "as_int (Number (Str ''7'')) = Some 7" by code_simp
  have f: "find (\<lambda>s. s_id s = 1) (stores example_db) = Some ?s"
    by (simp add: example_db_def)
  have m7: "7 \<notin> set (map s_id (stores example_db))" by (simp add: example_db_def)
  from put_stores_id_partial_update
         [of "''1''" 1 example_db ?s "''T''" "Str ''T''" Undefined _ _] 1 f
  have a: "put_stores_id ''1'' (Str ''T'') Undefined example_db
     = (respond 200 (StoreBody \<lparr>s_id = 1, s_name = ''T'', s_userId = 1\<rparr>),
        example_db\<lparr>stores := [\<lparr>s_id = 1, s_name = ''T'', s_userId = 1\<rparr>]\<rparr>)"
    by (simp add: example_db_def)
  obtain q e' where k: "put_stores_id ''1'' Undefined (Num (Fin 1)) example_db = (q, e')"
    by fastforce
  have kq: "status q = 200"
    using k 1 f
    by (auto simp: put_stores_id_def store_update_def respond_def Let_def example_db_def
          simp del: Number.simps(5))
  from put_stores_id_partial_update
         [of "''1''" 1 example_db ?s "''T''" Undefined "Num (Fin 1)" q e'] k kq 1 f
  have b: "\<exists>t. body q = StoreBody t \<and> s_name t = ''S''"
    by auto
  from put_stores_id_partial_update
         [of "''7''" 7 example_db _ _ "Str ''T''" Undefined _ _] 7 m7
  have c: "put_stores_id ''7'' (Str ''T'') Undefined example_db
     = (respond 404 (ErrorBody (Text msg_loja) None), example_db)"
    by simp
  obtain r d' where p: "put_stores_id ''1'' (Str ''T'') (Num (Fin 9)) example_db = (r, d')"
    by fastforce
  have u: "store_update (Number (Str ''1'')) (Str ''T'') (Some (Fin 9)) example_db
             = Inl foreign_key_violation"
    using 1 by (simp add: store_update_def example_db_def del: Number.simps(5))
  then have st: "status r = 400"
    using p by (auto simp: put_stores_id_def foreign_key_violation_def respond_def
                  simp del: Number.simps(5))
  from put_stores_id_partial_update
         [of "''1''" 1 example_db _ _ "Str ''T''" "Num (Fin 9)" r d'] p st u
  have d: "r = respond 400 (ErrorBody (MessageOf foreign_key_violation) None)"
    by simp
  from b k have b': "\<exists>t. body (fst (put_stores_id ''1'' Undefined (Num (Fin 1)) example_db))
             = StoreBody t \<and> s_name t = ''S''"
    by simp
  from d p have d': "fst (put_stores_id ''1'' (Str ''T'') (Num (Fin 9)) example_db)
     = respond 400 (ErrorBody (MessageOf foreign_key_violation) None)"
    by simp
  from a b' c d' show ?thesis by blast
qed

text \<open>
  C4 as stated fails: no store has the identifier 999, and PUT /stores/999 with the body
  \<^verbatim>\<open>{ "name": 5 }\<close> is answered 400, not 404, because the client rejects the name before
  it looks the store up.
\<close>


theorem put_stores_id_not_404:
  "999 \<notin> set (map s_id (stores example_db))
   \<and> as_int (Number (Str ''999'')) = Some 999
   \<and> status (fst (put_stores_id ''999'' (Num (Fin 5)) Undefined example_db)) = 400
   \<and> status (fst (put_stores_id ''999'' (Num (Fin 5)) Undefined example_db)) \<noteq> 404"
proof -
  have n: "as_int (Number (Str ''999'')) = Some 999" by code_simp
  then have "put_stores_id ''999'' (Num (Fin 5)) Undefined example_db
               = (respond 400 (ErrorBody (MessageOf validation_error) None), example_db)"
    by (simp add: put_stores_id_def store_update_def validation_error_def del: Number.simps(5))
  with n show ?thesis by (simp add: respond_def example_db_def)
qed

section \<open>Reading a store (C5)\<close>

text \<open>
  C5, as the code has it.  For a GET /stores/:id request: when the client reads the id as
  the identifier of a store, the answer is 200 with that store, its owning user cut down
  to the selected fields (an \<open>owner\<close> has no password field) and exactly the store's
  products, by descending creation time; in every state the server reaches a store has
  its owning user; when the client reads the id as an integer that no store has, the
  answer is 404; when the client rejects the id, as it does \<^verbatim>\<open>NaN\<close>, the error is caught
  and \<open>errorHandler\<close> answers 500.  The handler answers every request with one of these
  three statuses and leaves the database as it was: nothing is thrown past it.
\<close>

theorem get_stores_id_cases:
  "(as_int (Number (Str idp)) = Some i \<and> find (\<lambda>s. s_id s = i) (stores d) = Some s
      \<and> find (\<lambda>u. u_id u = s_userId s) (users d) = Some u \<longrightarrow>
      (\<exists>ps. get_stores_id env idp d = (respond 200 (StoreDetail s (select_owner u) ps), d)
         \<and> mset ps = mset (filter (\<lambda>p. p_storeId p = i) (products d))
         \<and> sorted_wrt (\<lambda>a b. p_createdAt a \<ge> p_createdAt b) ps))
   \<and> (reachable env d \<and> find (\<lambda>s. s_id s = i) (stores d) = Some s \<longrightarrow>
        (\<exists>u. find (\<lambda>u. u_id u = s_userId s) (users d) = Some u))
   \<and> (as_int (Number (Str idp)) = Some i \<and> i \<notin> set (map s_id (stores d)) \<longrightarrow>
        get_stores_id env idp d = (respond 404 (ErrorBody (Text msg_loja) None), d))
   \<and> (as_int (Number (Str idp)) = None \<longrightarrow>
        get_stores_id env idp d
          = (respond 500 (ErrorBody (Text msg_erro_interno)
               (if env = Some ''development'' then Some (MessageOf validation_error) else None)), d))
   \<and> status (fst (get_stores_id env idp d)) \<in> {200, 404, 500}
   \<and> snd (get_stores_id env idp d) = d"
proof (intro conjI impI)
  assume a: "as_int (Number (Str idp)) = Some i \<and> find (\<lambda>s. s_id s = i) (stores d) = Some s
      \<and> find (\<lambda>u. u_id u = s_userId s) (users d) = Some u"
  with get_stores_id_present [of idp i d s u env] mset_products_of [of i d]
    sorted_wrt_products_of [of i d]
  show "\<exists>ps. get_stores_id env idp d = (respond 200 (StoreDetail s (select_owner u) ps), d)
         \<and> mset ps = mset (filter (\<lambda>p. p_storeId p = i) (products d))
         \<and> sorted_wrt (\<lambda>a b. p_createdAt a \<ge> p_createdAt b) ps"
    by blast
next
  assume "reachable env d \<and> find (\<lambda>s. s_id s = i) (stores d) = Some s"
  then show "\<exists>u. find (\<lambda>u. u_id u = s_userId s) (users d) = Some u"
    using reachable_invariants [of env d] wf_owner_exists [of d i s] by blast
next
  assume "as_int (Number (Str idp)) = Some i \<and> i \<notin> set (map s_id (stores d))"
  then show "get_stores_id env idp d = (respond 404 (ErrorBody (Text msg_loja) None), d)"
    by (simp add: get_stores_id_absent)
next
  assume "as_int (Number (Str idp)) = None"
  then show "get_stores_id env idp d
          = (respond 500 (ErrorBody (Text msg_erro_interno)
               (if env = Some ''development'' then Some (MessageOf validation_error) else None)), d)"
    by (simp add: get_stores_id_invalid errorHandler_validation)
next
  show "status (fst (get_stores_id env idp d)) \<in> {200, 404, 500}"
    by (auto simp: get_stores_id_def store_findUnique_def respond_def errorHandler_def
          validation_error_def inconsistent_result_def split: option.splits)
next
  show "snd (get_stores_id env idp d) = d"
    by (rule get_stores_id_db)
qed

theorem get_stores_id_cases_witness:
  "(\<exists>ps. get_stores_id None ''1'' example_db
       = (respond 200
            (StoreDetail \<lparr>s_id = 1, s_name = ''S'', s_userId = 1\<rparr>
               \<lparr>o_id = 1, o_name = ''A'', o_email = ''a@a.com'', o_createdAt = 5, o_updatedAt = 5\<rparr>
               ps), example_db)
      \<and> length ps = 2)
   \<and> get_stores_id None ''7'' example_db
       = (respond 404 (ErrorBody (Text msg_loja) None), example_db)
   \<and> status (fst (get_stores_id None ''abc'' example_db)) = 500"
proof -
  let ?s = "\<lparr>s_id = 1, s_name = ''S'', s_userId = 1\<rparr>"
  have 1: "as_int (Number (Str ''1'')) = Some 1" by code_simp
  have 7: "as_int (Number (Str ''7'')) = Some 7" by code_simp
  have abc: "as_int (Number (Str ''abc'')) = None" by code_simp
  have f: "find (\<lambda>s. s_id s = 1) (stores example_db) = Some ?s"
    by (simp add: example_db_def)
  from get_stores_id_cases [of "''1''" 1 example_db ?s _ None] f reachable_example_db
  obtain u where g: "find (\<lambda>u. u_id u = s_userId ?s) (users example_db) = Some u"
    by blast
  then have "u \<in> set (users example_db)" by (auto dest: find_Some_mem)
  then have o: "select_owner u
      = \<lparr>o_id = 1, o_name = ''A'', o_email = ''a@a.com'', o_createdAt = 5, o_updatedAt = 5\<rparr>"
    by (simp add: select_owner_def example_db_def)
  from get_stores_id_cases [of "''1''" 1 example_db ?s u None] 1 f g
  obtain ps where r: "get_stores_id None ''1'' example_db
        = (respond 200 (StoreDetail ?s (select_owner u) ps), example_db)"
    and m: "mset ps = mset (filter (\<lambda>p. p_storeId p = 1) (products example_db))"
    by blast
  from m have "length ps = length (filter (\<lambda>p. p_storeId p = 1) (products example_db))"
    by (rule mset_eq_length)
  then have l: "length ps = 2" by (simp add: example_db_def)
  have a: "\<exists>ps. get_stores_id None ''1'' example_db
       = (respond 200
            (StoreDetail \<lparr>s_id = 1, s_name = ''S'', s_userId = 1\<rparr>
               \<lparr>o_id = 1, o_name = ''A'', o_email = ''a@a.com'', o_createdAt = 5, o_updatedAt = 5\<rparr>
               ps), example_db)
      \<and> length ps = 2"
    using r l unfolding o by blast
  have m7: "7 \<notin> set (map s_id (stores example_db))" by (simp add: example_db_def)
  with get_stores_id_cases [of "''7''" 7 example_db _ _ None] 7
  have b: "get_stores_id None ''7'' example_db
       = (respond 404 (ErrorBody (Text msg_loja) None), example_db)"
    by blast
  from get_stores_id_cases [of "''abc''" 0 example_db _ _ None] abc
  have c: "status (fst (get_stores_id None ''abc'' example_db)) = 500"
    by (simp add: respond_def)
  from a b c show ?thesis by blast
qed

text \<open>
  C5 as stated fails: no store has the id \<^verbatim>\<open>abc\<close>, and GET /stores/abc is answered 500,
  not 404: \<^verbatim>\<open>Number("abc")\<close> is \<^verbatim>\<open>NaN\<close>, which the client rejects.
\<close>


theorem get_stores_id_not_always_404:
  "find (\<lambda>s. Number (Str ''abc'') = Fin (of_int (s_id s))) (stores example_db) = None
   \<and> status (fst (get_stores_id None ''abc'' example_db)) = 500
   \<and> status (fst (get_stores_id None ''abc'' example_db)) \<noteq> 404"
proof -
  have abc: "as_int (Number (Str ''abc'')) = None" by code_simp
  then have "get_stores_id None ''abc'' example_db
       = (respond 500 (ErrorBody (Text msg_erro_interno) None), example_db)"
    by (simp add: get_stores_id_invalid errorHandler_validation)
  then show ?thesis
    by (simp add: respond_def example_db_def Number_abc del: Number.simps)
qed

section \<open>Creating a product (C6)\<close>

text \<open>
  C6.  POST /products answers 201 or 400.  On 201 the body is the created record: its
  name is the string of the body, its price is \<^verbatim>\<open>Number(price)\<close>, its store is the
  identifier that the client reads from \<^verbatim>\<open>Number(storeId)\<close>, its update timestamp is the
  handler's \<^verbatim>\<open>new Date()\<close>, and the database is the old one with that record added.  On 400
  the body carries the raw message of the error and the database is left as it was.  A
  body that lacks \<open>name\<close>, \<open>price\<close> or \<open>storeId\<close> is answered 400, and so is a price that
  converts to no finite number (\<^verbatim>\<open>NaN\<close>, or an infinity as \<^verbatim>\<open>1e400\<close> gives); a body with
  a string name, a price that converts to a finite number and a \<open>storeId\<close> that the
  client reads as the identifier of a store is answered 201 with the record built from
  them.
\<close>

theorem post_products_create:
  "(post_products now created name price storeId d = (r, d') \<longrightarrow>
      (status r = 201
         \<and> (\<exists>p. body r = ProductBody p \<and> name = Str (p_name p)
                \<and> Number price = Fin (p_price p)
                \<and> as_int (Number storeId) = Some (p_storeId p)
                \<and> p_updatedAt p = now
                \<and> d' = d\<lparr>products := products d @ [p],
                          next_product_id := next_product_id d + 1\<rparr>))
      \<or> (status r = 400 \<and> d' = d \<and> (\<exists>e. body r = ErrorBody (MessageOf e) None)))
   \<and> (name = Undefined \<or> price = Undefined \<or> storeId = Undefined \<longrightarrow>
        post_products now created name price storeId d
          = (respond 400 (ErrorBody (MessageOf validation_error) None), d))
   \<and> (Number price \<in> {NaN, PosInf, NegInf} \<longrightarrow>
        post_products now created name price storeId d
          = (respond 400 (ErrorBody (MessageOf validation_error) None), d))
   \<and> (Number price = Fin pr \<and> as_int (Number storeId) = Some sid
        \<and> sid \<in> set (map s_id (stores d)) \<longrightarrow>
        (\<exists>p. post_products now created (Str n) price storeId d
                = (respond 201 (ProductBody p),
                   d\<lparr>products := products d @ [p],
                     next_product_id := next_product_id d + 1\<rparr>)
             \<and> p_id p = next_product_id d \<and> p_name p = n \<and> p_price p = pr
             \<and> p_storeId p = sid \<and> p_updatedAt p = now))"
proof (intro conjI impI)
  assume a: "post_products now created name price storeId d = (r, d')"
  show "(status r = 201
         \<and> (\<exists>p. body r = ProductBody p \<and> name = Str (p_name p)
                \<and> Number price = Fin (p_price p)
                \<and> as_int (Number storeId) = Some (p_storeId p)
                \<and> p_updatedAt p = now
                \<and> d' = d\<lparr>products := products d @ [p],
                          next_product_id := next_product_id d + 1\<rparr>))
      \<or> (status r = 400 \<and> d' = d \<and> (\<exists>e. body r = ErrorBody (MessageOf e) None))"
  proof (cases "product_create created name (Number price) (Number storeId) now d")
    case (Inl e)
    with a show ?thesis by (auto simp: post_products_def respond_def)
  next
    case (Inr x)
    then obtain p d'' where c: "product_create created name (Number price) (Number storeId) now d = Inr (p, d'')"
      by (cases x) auto
    with a have r: "r = respond 201 (ProductBody p)" and d: "d' = d''"
      by (auto simp: post_products_def)
    from product_create_Inr [OF c] r d show ?thesis
      by (auto simp: respond_def)
  qed
next
  assume "name = Undefined \<or> price = Undefined \<or> storeId = Undefined"
  then have "name = Undefined \<or> Number price \<in> {NaN, PosInf, NegInf} \<or> Number storeId = NaN"
    by auto
  then have "product_create created name (Number price) (Number storeId) now d = Inl validation_error"
    by (rule product_create_missing)
  then show "post_products now created name price storeId d
          = (respond 400 (ErrorBody (MessageOf validation_error) None), d)"
    by (simp add: post_products_def)
next
  assume "Number price \<in> {NaN, PosInf, NegInf}"
  then have "product_create created name (Number price) (Number storeId) now d = Inl validation_error"
    using product_create_missing [of name "Number price" "Number storeId" created now d] by blast
  then show "post_products now created name price storeId d
          = (respond 400 (ErrorBody (MessageOf validation_error) None), d)"
    by (simp add: post_products_def)
next
  assume a: "Number price = Fin pr \<and> as_int (Number storeId) = Some sid
        \<and> sid \<in> set (map s_id (stores d))"
  then have "product_create created (Str n) (Number price) (Number storeId) now d
           = Inr (\<lparr>p_id = next_product_id d, p_name = n, p_price = pr, p_storeId = sid,
                    p_createdAt = created, p_updatedAt = now\<rparr>,
                  d\<lparr>products := products d
                         @ [\<lparr>p_id = next_product_id d, p_name = n, p_price = pr, p_storeId = sid,
                             p_createdAt = created, p_updatedAt = now\<rparr>],
                    next_product_id := next_product_id d + 1\<rparr>)"
    using product_create_ok [of "Number storeId" sid d created n pr now] by simp
  then show "\<exists>p. post_products now created (Str n) price storeId d
                = (respond 201 (ProductBody p),
                   d\<lparr>products := products d @ [p],
                     next_product_id := next_product_id d + 1\<rparr>)
             \<and> p_id p = next_product_id d \<and> p_name p = n \<and> p_price p = pr
             \<and> p_storeId p = sid \<and> p_updatedAt p = now"
    by (intro exI [of _ "\<lparr>p_id = next_product_id d, p_name = n, p_price = pr, p_storeId = sid,
                          p_createdAt = created, p_updatedAt = now\<rparr>"])
       (simp add: post_products_def)
qed

theorem post_products_create_witness:
  "(\<exists>q. fst (post_products 11 12 (Str ''R'') (Str ''10.5'') (Num (Fin 1)) example_db)
          = respond 201 (ProductBody q)
        \<and> p_id q = 3 \<and> p_name q = ''R'' \<and> p_price q = 21 / 2
        \<and> p_storeId q = 1 \<and> p_updatedAt q = 11)
   \<and> length (products (snd (post_products 11 12 (Str ''R'') (Str ''10.5'') (Num (Fin 1)) example_db)))
     = 3
   \<and> post_products 11 12 (Str ''R'') Undefined (Num (Fin 1)) example_db
     = (respond 400 (ErrorBody (MessageOf validation_error) None), example_db)
   \<and> post_products 11 12 (Str ''R'') (Str ''1e400'') (Num (Fin 1)) example_db
     = (respond 400 (ErrorBody (MessageOf validation_error) None), example_db)"
proof -
  have n: "Number (Str ''10.5'') = Fin (21 / 2)" by code_simp
  have o: "Number (Str ''1e400'') \<in> {NaN, PosInf, NegInf}" by code_simp
  have m: "as_int (Number (Num (Fin 1))) = Some 1" by simp
  have s: "1 \<in> set (map s_id (stores example_db))" by (simp add: example_db_def)
  obtain r d' where p: "post_products 11 12 (Str ''R'') (Str ''10.5'') (Num (Fin 1)) example_db = (r, d')"
    by fastforce
  note t = post_products_create
             [where now = 11 and created = 12 and name = "Str ''R''" and price = "Str ''10.5''"
                and storeId = "Num (Fin 1)" and d = example_db and r = r and d' = d'
                and pr = "21 / 2" and sid = 1 and n = "''R''"]
  from t n m s obtain q where a: "post_products 11 12 (Str ''R'') (Str ''10.5'') (Num (Fin 1)) example_db
          = (respond 201 (ProductBody q),
             example_db\<lparr>products := products example_db @ [q],
               next_product_id := next_product_id example_db + 1\<rparr>)"
    and q: "p_id q = next_product_id example_db" "p_name q = ''R''" "p_price q = 21 / 2"
      "p_storeId q = 1" "p_updatedAt q = 11"
    by blast
  from a p have st: "status r = 201" and b: "body r = ProductBody q"
    by (simp_all add: respond_def)
  from t p st b have "Number (Str ''10.5'') = Fin (p_price q) \<and> p_updatedAt q = 11"
    by auto
  from a q have 1: "\<exists>q. fst (post_products 11 12 (Str ''R'') (Str ''10.5'') (Num (Fin 1)) example_db)
                       = respond 201 (ProductBody q)
                     \<and> p_id q = 3 \<and> p_name q = ''R'' \<and> p_price q = 21 / 2
                     \<and> p_storeId q = 1 \<and> p_updatedAt q = 11"
    by (intro exI [of _ q]) (simp add: example_db_def)
  from a have 2: "length (products (snd (post_products 11 12 (Str ''R'') (Str ''10.5'') (Num (Fin 1)) example_db))) = 3"
    by (simp add: example_db_def)
  from post_products_create [where now = 11 and created = 12 and name = "Str ''R''" and price = Undefined
         and storeId = "Num (Fin 1)" and d = example_db]
  have 3: "post_products 11 12 (Str ''R'') Undefined (Num (Fin 1)) example_db
     = (respond 400 (ErrorBody (MessageOf validation_error) None), example_db)"
    by simp
  from post_products_create [where now = 11 and created = 12 and name = "Str ''R''" and price = "Str ''1e400''"
         and storeId = "Num (Fin 1)" and d = example_db] o
  have 4: "post_products 11 12 (Str ''R'') (Str ''1e400'') (Num (Fin 1)) example_db
     = (respond 400 (ErrorBody (MessageOf validation_error) None), example_db)"
    by blast
  from 1 2 3 4 show ?thesis by blast
qed

section \<open>Deleting a user (C7)\<close>

text \<open>
  C7, as the code has it.  For a DELETE /users/:id request whose id the client reads as
  the integer \<open>i\<close>: when no user has the identifier \<open>i\<close> the answer is 404 and the
  database is left as it was; when a user has it the answer is 204 with no body, the user
  is gone, every store it owned is gone (no store of the resulting database has \<open>i\<close> as
  its \<open>userId\<close>), and so is every product of those stores, while the other stores and
  products stay; on a database that satisfies the invariants the result satisfies them
  too, and no store of the deleted user can be looked up by its identifier any more.  An
  id that the client rejects is answered 500 by \<open>errorHandler\<close>, and the database is left
  as it was.
\<close>

theorem delete_users_id_cascade:
  "(as_int (Number (Str idp)) = Some i \<and> i \<notin> set (map u_id (users d)) \<longrightarrow>
      delete_users_id env idp d = (respond 404 (ErrorBody (Text msg_usuario) None), d))
   \<and> (as_int (Number (Str idp)) = Some i \<and> i \<in> set (map u_id (users d)) \<longrightarrow>
        (\<exists>d'. delete_users_id env idp d = (respond 204 NoBody, d')
           \<and> users d' = filter (\<lambda>u. u_id u \<noteq> i) (users d)
           \<and> stores d' = filter (\<lambda>s. s_userId s \<noteq> i) (stores d)
           \<and> filter (\<lambda>s. s_userId s = i) (stores d') = []
           \<and> products d'
               = filter (\<lambda>p. \<forall>s \<in> set (stores d). s_userId s = i \<longrightarrow> p_storeId p \<noteq> s_id s)
                   (products d)
           \<and> (wf_db d \<longrightarrow>
                wf_db d'
                \<and> (\<forall>s \<in> set (stores d). s_userId s = i \<longrightarrow> s_id s \<notin> set (map s_id (stores d'))))))
   \<and> (as_int (Number (Str idp)) = None \<longrightarrow>
        delete_users_id env idp d
          = (respond 500
               (ErrorBody (Text msg_erro_interno)
                  (if env = Some ''development'' then Some (MessageOf validation_error) else None)),
             d))"
proof (intro conjI impI)
  assume "as_int (Number (Str idp)) = Some i \<and> i \<notin> set (map u_id (users d))"
  then show "delete_users_id env idp d = (respond 404 (ErrorBody (Text msg_usuario) None), d)"
    using delete_users_id_absent [of idp i d env] by blast
next
  assume a: "as_int (Number (Str idp)) = Some i \<and> i \<in> set (map u_id (users d))"
  let ?d' = "without_user i d"
  have run: "delete_users_id env idp d = (respond 204 NoBody, ?d')"
    using a delete_users_id_present [of idp i d env] by blast
  have u: "users ?d' = filter (\<lambda>u. u_id u \<noteq> i) (users d)"
    and s: "stores ?d' = filter (\<lambda>s. s_userId s \<noteq> i) (stores d)"
    by (simp_all add: without_user_def)
  have e: "filter (\<lambda>s. s_userId s = i) (stores ?d') = []"
    by (simp add: without_user_def filter_empty_conv)
  have p: "products ?d'
      = filter (\<lambda>p. \<forall>s \<in> set (stores d). s_userId s = i \<longrightarrow> p_storeId p \<noteq> s_id s) (products d)"
    unfolding without_user_def by (auto intro: filter_cong)
  have w: "wf_db d \<longrightarrow>
             wf_db ?d' \<and> (\<forall>s \<in> set (stores d). s_userId s = i \<longrightarrow> s_id s \<notin> set (map s_id (stores ?d')))"
  proof (intro impI conjI ballI)
    assume "wf_db d"
    then show "wf_db ?d'" by (rule wf_without_user)
  next
    fix s assume wf: "wf_db d" and s: "s \<in> set (stores d)" and o: "s_userId s = i"
    show "s_id s \<notin> set (map s_id (stores ?d'))"
    proof
      assume "s_id s \<in> set (map s_id (stores ?d'))"
      then obtain t where t: "t \<in> set (stores d)" "s_userId t \<noteq> i" "s_id t = s_id s"
        by (auto simp: without_user_def)
      from wf have "inj_on s_id (set (stores d))"
        by (simp add: wf_db_def distinct_map)
      with s t have "t = s" by (auto dest: inj_onD)
      with o t show False by simp
    qed
  qed
  from run u s e p w
  show "\<exists>d'. delete_users_id env idp d = (respond 204 NoBody, d')
           \<and> users d' = filter (\<lambda>u. u_id u \<noteq> i) (users d)
           \<and> stores d' = filter (\<lambda>s. s_userId s \<noteq> i) (stores d)
           \<and> filter (\<lambda>s. s_userId s = i) (stores d') = []
           \<and> products d'
               = filter (\<lambda>p. \<forall>s \<in> set (stores d). s_userId s = i \<longrightarrow> p_storeId p \<noteq> s_id s)
                   (products d)
           \<and> (wf_db d \<longrightarrow>
                wf_db d'
                \<and> (\<forall>s \<in> set (stores d). s_userId s = i \<longrightarrow> s_id s \<notin> set (map s_id (stores d'))))"
    by (intro exI [of _ ?d']) blast
next
  assume "as_int (Number (Str idp)) = None"
  then show "delete_users_id env idp d
          = (respond 500
               (ErrorBody (Text msg_erro_interno)
                  (if env = Some ''development'' then Some (MessageOf validation_error) else None)),
             d)"
    by (simp add: delete_users_id_invalid errorHandler_validation)
qed

theorem delete_users_id_cascade_witness:
  "fst (delete_users_id None ''1'' two_owner_db) = respond 204 NoBody
   \<and> map u_id (users (snd (delete_users_id None ''1'' two_owner_db))) = [2]
   \<and> stores (snd (delete_users_id None ''1'' two_owner_db))
       = [\<lparr>s_id = 2, s_name = ''T'', s_userId = 2\<rparr>]
   \<and> map p_id (products (snd (delete_users_id None ''1'' two_owner_db))) = [2]
   \<and> wf_db (snd (delete_users_id None ''1'' two_owner_db))
   \<and> delete_users_id None ''7'' two_owner_db
       = (respond 404 (ErrorBody (Text msg_usuario) None), two_owner_db)
   \<and> delete_users_id None ''1e21'' two_owner_db
       = (respond 500 (ErrorBody (Text msg_erro_interno) None), two_owner_db)"
proof -
  have 1: "as_int (Number (Str ''1'')) = Some 1" by code_simp
  have 7: "as_int (Number (Str ''7'')) = Some 7" by code_simp
  have big: "as_int (Number (Str ''1e21'')) = None" by code_simp
  have m1: "1 \<in> set (map u_id (users two_owner_db))"
    and m7: "7 \<notin> set (map u_id (users two_owner_db))"
    by (simp_all add: two_owner_db_def)
  from delete_users_id_cascade [of "''1''" 1 two_owner_db None] 1 m1 wf_two_owner_db
  obtain d' where r: "delete_users_id None ''1'' two_owner_db = (respond 204 NoBody, d')"
    and u: "users d' = filter (\<lambda>u. u_id u \<noteq> 1) (users two_owner_db)"
    and s: "stores d' = filter (\<lambda>s. s_userId s \<noteq> 1) (stores two_owner_db)"
    and p: "products d'
        = filter (\<lambda>p. \<forall>s \<in> set (stores two_owner_db). s_userId s = 1 \<longrightarrow> p_storeId p \<noteq> s_id s)
            (products two_owner_db)"
    and w: "wf_db d'"
    by blast
  from u have u': "map u_id (users d') = [2]" by (simp add: two_owner_db_def)
  from s have s': "stores d' = [\<lparr>s_id = 2, s_name = ''T'', s_userId = 2\<rparr>]"
    by (simp add: two_owner_db_def)
  from p have p': "map p_id (products d') = [2]" by (simp add: two_owner_db_def)
  from r u' s' p' w
  have "fst (delete_users_id None ''1'' two_owner_db) = respond 204 NoBody
   \<and> map u_id (users (snd (delete_users_id None ''1'' two_owner_db))) = [2]
   \<and> stores (snd (delete_users_id None ''1'' two_owner_db))
       = [\<lparr>s_id = 2, s_name = ''T'', s_userId = 2\<rparr>]
   \<and> map p_id (products (snd (delete_users_id None ''1'' two_owner_db))) = [2]
   \<and> wf_db (snd (delete_users_id None ''1'' two_owner_db))"
    by simp
  moreover from delete_users_id_cascade [of "''7''" 7 two_owner_db None] 7 m7
  have "delete_users_id None ''7'' two_owner_db
       = (respond 404 (ErrorBody (Text msg_usuario) None), two_owner_db)"
    by blast
  moreover from delete_users_id_cascade [of "''1e21''" _ two_owner_db None] big
  have "delete_users_id None ''1e21'' two_owner_db
       = (respond 500 (ErrorBody (Text msg_erro_interno) None), two_owner_db)"
    by simp
  ultimately show ?thesis by blast
qed

text \<open>
  C7 as stated fails for a numeric id that is not the identifier of a user.  No user has
  the identifier 1.5, and DELETE /users/1.5 is answered 204 and deletes the user 1 with
  its store and products, because the client reads 1.5 as 1.  No user has the identifier
  \<^verbatim>\<open>1e21\<close>, and DELETE /users/1e21 is answered 500, not 404, because the client rejects the
  number.
\<close>

theorem delete_users_id_numeric:
  "Number (Str ''1.5'') = Fin (3 / 2)
   \<and> find (\<lambda>u. Fin (of_int (u_id u)) = Number (Str ''1.5'')) (users example_db) = None
   \<and> delete_users_id None ''1.5'' example_db
       = (\<lparr>status = 204, body = NoBody\<rparr>,
          example_db\<lparr>users := [], stores := [], products := []\<rparr>)
   \<and> Number (Str ''1e21'') = Fin (10 ^ 21)
   \<and> find (\<lambda>u. Fin (of_int (u_id u)) = Number (Str ''1e21'')) (users example_db) = None
   \<and> delete_users_id None ''1e21'' example_db
       = (\<lparr>status = 500, body = ErrorBody (Text msg_erro_interno) None\<rparr>, example_db)"
proof -
  have a: "Number (Str ''1.5'') = Fin (3 / 2)" by code_simp
  have b: "Number (Str ''1e21'') = Fin (10 ^ 21)" by code_simp
  have c: "as_int (Fin (3 / 2)) = Some 1" by code_simp
  have d: "as_int (Fin (10 ^ 21)) = None" by code_simp
  have m: "1 \<in> set (map u_id (users example_db))" by (simp add: example_db_def)
  have 1: "delete_users_id None ''1.5'' example_db = (respond 204 NoBody, without_user 1 example_db)"
    using a c m delete_users_id_present [of "''1.5''" 1 example_db None] by simp
  have 2: "without_user 1 example_db = example_db\<lparr>users := [], stores := [], products := []\<rparr>"
    by (simp add: without_user_def example_db_def)
  have 3: "delete_users_id None ''1e21'' example_db
             = (respond 500 (ErrorBody (Text msg_erro_interno) None), example_db)"
    using b d delete_users_id_invalid [of "''1e21''" None example_db]
    by (simp add: errorHandler_validation)
  have 4: "find (\<lambda>u. Fin (of_int (u_id u)) = Fin (3 / 2)) (users example_db) = None"
    by (simp add: example_db_def)
  have 5: "find (\<lambda>u. Fin (of_int (u_id u)) = Fin (10 ^ 21)) (users example_db) = None"
    by (simp add: example_db_def)
  from a b 1 2 3 4 5 show ?thesis
    by (simp add: respond_def del: Number.simps)
qed

section \<open>The email pattern of POST /users (C8)\<close>

text \<open>
  C8.  When \<open>name\<close>, \<open>email\<close> and \<open>password\<close> are all truthy, the email passes the test
  exactly when it is a string \<open>a@b.c\<close> with \<open>a\<close>, \<open>b\<close>, \<open>c\<close> non-empty and free of white
  space (so it holds an \<^verbatim>\<open>@\<close> and, after it, a dot); an email that fails the test is
  answered 400 with the invalid-format message and the database is left as it was; and
  the answer is 400 only then.
\<close>

theorem post_users_email_pattern:
  assumes "truthy name" and "truthy email" and "truthy password"
  shows "(email_test email \<longleftrightarrow>
            (\<exists>a b c. email = Str (a @ ''@'' @ b @ ''.'' @ c) \<and> a \<noteq> [] \<and> b \<noteq> [] \<and> c \<noteq> []
               \<and> (\<forall>x \<in> set a \<union> set b \<union> set c. \<not> is_space x)))
       \<and> (\<not> email_test email \<longrightarrow>
            post_users now name email password d
              = (respond 400 (ErrorBody (Text msg_email_invalido) None), d))
       \<and> (email_test email \<longleftrightarrow> status (fst (post_users now name email password d)) \<noteq> 400)"
proof (intro conjI impI)
  show "email_test email \<longleftrightarrow>
            (\<exists>a b c. email = Str (a @ ''@'' @ b @ ''.'' @ c) \<and> a \<noteq> [] \<and> b \<noteq> [] \<and> c \<noteq> []
               \<and> (\<forall>x \<in> set a \<union> set b \<union> set c. \<not> is_space x))"
    by (rule email_test_iff)
next
  assume "\<not> email_test email"
  with assms show "post_users now name email password d
              = (respond 400 (ErrorBody (Text msg_email_invalido) None), d)"
    by (simp add: post_users_def)
next
  show "email_test email \<longleftrightarrow> status (fst (post_users now name email password d)) \<noteq> 400"
  proof
    assume "email_test email"
    from post_users_passed [OF assms this, of now d]
    show "status (fst (post_users now name email password d)) \<noteq> 400" by auto
  next
    assume "status (fst (post_users now name email password d)) \<noteq> 400"
    with assms show "email_test email"
      by (auto simp: post_users_def respond_def split: if_splits)
  qed
qed

theorem post_users_email_pattern_witness:
  "post_users 10 (Str ''B'') (Str ''b@bcom'') (Str ''x'') example_db
     = (respond 400 (ErrorBody (Text msg_email_invalido) None), example_db)
   \<and> status (fst (post_users 10 (Str ''B'') (Str ''b@b.com'') (Str ''x'') example_db)) \<noteq> 400"
proof -
  have t: "truthy (Str ''B'')" "truthy (Str ''b@bcom'')" "truthy (Str ''b@b.com'')"
    "truthy (Str ''x'')"
    by simp_all
  from post_users_email_pattern [OF t(1) t(2) t(4), of 10 example_db] email_test_bad
  have "post_users 10 (Str ''B'') (Str ''b@bcom'') (Str ''x'') example_db
     = (respond 400 (ErrorBody (Text msg_email_invalido) None), example_db)"
    by blast
  moreover from post_users_email_pattern [OF t(1) t(3) t(4), of 10 example_db] email_test_ok
  have "status (fst (post_users 10 (Str ''B'') (Str ''b@b.com'') (Str ''x'') example_db)) \<noteq> 400"
    by blast
  ultimately show ?thesis by blast
qed

section \<open>Falsy fields of an update (C9)\<close>

text \<open>
  C9.  In PUT /stores/:id a \<open>userId\<close> that is falsy (0 among them), and in
  PUT /products/:id a \<open>price\<close> or \<open>storeId\<close> that is falsy, is handled exactly as the
  absent field is: the request has the answer and the effect of the same request without
  the field, so on success the stored value stays as it was and is not set to the
  supplied one.
\<close>

theorem falsy_field_is_absent:
  "(\<not> truthy userId \<longrightarrow>
      put_stores_id idp name userId d = put_stores_id idp name Undefined d)
   \<and> (\<not> truthy price \<longrightarrow>
        put_products_id idp name price storeId d = put_products_id idp name Undefined storeId d)
   \<and> (\<not> truthy storeId \<longrightarrow>
        put_products_id idp name price storeId d = put_products_id idp name price Undefined d)
   \<and> \<not> truthy (Num (Fin 0))
   \<and> (\<not> truthy userId \<and> put_stores_id idp name userId d = (r, d') \<and> status r = 200 \<longrightarrow>
        (\<exists>i s0 s. as_int (Number (Str idp)) = Some i
           \<and> find (\<lambda>s. s_id s = i) (stores d) = Some s0
           \<and> body r = StoreBody s \<and> s_userId s = s_userId s0
           \<and> stores d' = map (\<lambda>x. if s_id x = i then s else x) (stores d)))
   \<and> (put_products_id idp name price storeId d = (r, d') \<and> status r = 200 \<longrightarrow>
        (\<exists>i p0 p. as_int (Number (Str idp)) = Some i
           \<and> find (\<lambda>p. p_id p = i) (products d) = Some p0
           \<and> body r = ProductBody p
           \<and> (\<not> truthy price \<longrightarrow> p_price p = p_price p0)
           \<and> (\<not> truthy storeId \<longrightarrow> p_storeId p = p_storeId p0)
           \<and> products d' = map (\<lambda>x. if p_id x = i then p else x) (products d)))"
proof (intro conjI impI)
  assume "\<not> truthy userId"
  then show "put_stores_id idp name userId d = put_stores_id idp name Undefined d"
    by (simp add: put_stores_id_def)
next
  assume "\<not> truthy price"
  then show "put_products_id idp name price storeId d = put_products_id idp name Undefined storeId d"
    by (simp add: put_products_id_def)
next
  assume "\<not> truthy storeId"
  then show "put_products_id idp name price storeId d = put_products_id idp name price Undefined d"
    by (simp add: put_products_id_def)
next
  show "\<not> truthy (Num (Fin 0))" by simp
next
  assume a: "\<not> truthy userId \<and> put_stores_id idp name userId d = (r, d') \<and> status r = 200"
  then obtain s where u: "store_update (Number (Str idp)) name None d = Inr (s, d')"
    and r: "r = respond 200 (StoreBody s)"
    using put_stores_id_ok [of idp name userId d r d'] by auto
  from store_update_Inr [OF u] obtain i s0 nm where
    "as_int (Number (Str idp)) = Some i" "find (\<lambda>s. s_id s = i) (stores d) = Some s0"
    "s = s0\<lparr>s_name := (case nm of None \<Rightarrow> s_name s0 | Some x \<Rightarrow> x), s_userId := s_userId s0\<rparr>"
    "d' = d\<lparr>stores := map (\<lambda>x. if s_id x = i then s else x) (stores d)\<rparr>"
    by auto
  with r show "\<exists>i s0 s. as_int (Number (Str idp)) = Some i
           \<and> find (\<lambda>s. s_id s = i) (stores d) = Some s0
           \<and> body r = StoreBody s \<and> s_userId s = s_userId s0
           \<and> stores d' = map (\<lambda>x. if s_id x = i then s else x) (stores d)"
    by (auto simp: respond_def)
next
  assume a: "put_products_id idp name price storeId d = (r, d') \<and> status r = 200"
  then obtain p where u: "product_update (Number (Str idp)) name
                (if truthy price then Some (Number price) else None)
                (if truthy storeId then Some (Number storeId) else None) d = Inr (p, d')"
    and r: "r = respond 200 (ProductBody p)"
    using put_products_id_ok [of idp name price storeId d r d'] by auto
  from product_update_Inr [OF u] obtain i p0 nm pr sid where
    i: "as_int (Number (Str idp)) = Some i" and f: "find (\<lambda>p. p_id p = i) (products d) = Some p0"
    and pr: "opt_float (if truthy price then Some (Number price) else None) = Some pr"
    and sid: "opt_int (if truthy storeId then Some (Number storeId) else None) = Some sid"
    and p: "p = p0\<lparr>p_name := (case nm of None \<Rightarrow> p_name p0 | Some x \<Rightarrow> x),
                    p_price := (case pr of None \<Rightarrow> p_price p0 | Some x \<Rightarrow> x),
                    p_storeId := (case sid of None \<Rightarrow> p_storeId p0 | Some k \<Rightarrow> k)\<rparr>"
    and d': "d' = d\<lparr>products := map (\<lambda>x. if p_id x = i then p else x) (products d)\<rparr>"
    by blast
  have 1: "\<not> truthy price \<longrightarrow> p_price p = p_price p0" using pr p by auto
  have 2: "\<not> truthy storeId \<longrightarrow> p_storeId p = p_storeId p0" using sid p by auto
  have 3: "body r = ProductBody p" using r by (simp add: respond_def)
  have 4: "products d' = map (\<lambda>x. if p_id x = i then p else x) (products d)" using d' by simp
  from i f 1 2 3 4
  show "\<exists>i p0 p. as_int (Number (Str idp)) = Some i
           \<and> find (\<lambda>p. p_id p = i) (products d) = Some p0
           \<and> body r = ProductBody p
           \<and> (\<not> truthy price \<longrightarrow> p_price p = p_price p0)
           \<and> (\<not> truthy storeId \<longrightarrow> p_storeId p = p_storeId p0)
           \<and> products d' = map (\<lambda>x. if p_id x = i then p else x) (products d)"
    by blast
qed

theorem falsy_field_is_absent_witness:
  "put_stores_id ''1'' (Str ''T'') (Num (Fin 0)) example_db
     = put_stores_id ''1'' (Str ''T'') Undefined example_db
   \<and> (\<exists>s. body (fst (put_stores_id ''1'' (Str ''T'') (Num (Fin 0)) example_db)) = StoreBody s
          \<and> s_userId s = 1)
   \<and> put_products_id ''1'' Undefined (Num (Fin 0)) (Num (Fin 0)) example_db
     = put_products_id ''1'' Undefined Undefined Undefined example_db
   \<and> (\<exists>p. body (fst (put_products_id ''1'' Undefined (Num (Fin 0)) (Num (Fin 0)) example_db))
              = ProductBody p
          \<and> p_price p = 10 \<and> p_storeId p = 1)"
proof -
  let ?z = "Num (Fin 0)"
  have 1: "as_int (Number (Str ''1'')) = Some 1" by code_simp
  have z: "\<not> truthy ?z" by simp
  have fs: "find (\<lambda>s. s_id s = 1) (stores example_db) = Some \<lparr>s_id = 1, s_name = ''S'', s_userId = 1\<rparr>"
    and fp: "find (\<lambda>p. p_id p = 1) (products example_db)
               = Some \<lparr>p_id = 1, p_name = ''P'', p_price = 10, p_storeId = 1,
                       p_createdAt = 7, p_updatedAt = 7\<rparr>"
    by (simp_all add: example_db_def)
  obtain r d' where s: "put_stores_id ''1'' (Str ''T'') ?z example_db = (r, d')"
    by fastforce
  obtain q e' where p: "put_products_id ''1'' Undefined ?z ?z example_db = (q, e')"
    by fastforce
  have sr: "status r = 200"
    using s 1 fs
    by (auto simp: put_stores_id_def store_update_def respond_def Let_def
          simp del: Number.simps(5))
  have sq: "status q = 200"
    using p 1 fp
    by (auto simp: put_products_id_def product_update_def respond_def Let_def
          simp del: Number.simps(5))
  note ts = falsy_field_is_absent [of ?z "''1''" "Str ''T''" example_db _ _ r d']
  note tp = falsy_field_is_absent [of _ "''1''" Undefined example_db ?z ?z q e']
  note tq = falsy_field_is_absent [of _ "''1''" Undefined example_db Undefined ?z q e']
  from ts z have a: "put_stores_id ''1'' (Str ''T'') ?z example_db
     = put_stores_id ''1'' (Str ''T'') Undefined example_db"
    by blast
  from ts z s sr 1 fs have b: "\<exists>s. body r = StoreBody s \<and> s_userId s = 1"
    by auto
  from tp tq z have c: "put_products_id ''1'' Undefined ?z ?z example_db
     = put_products_id ''1'' Undefined Undefined Undefined example_db"
    by metis
  from tp z p sq 1 fp have d: "\<exists>p. body q = ProductBody p \<and> p_price p = 10 \<and> p_storeId p = 1"
    by auto
  from b s have b': "\<exists>s. body (fst (put_stores_id ''1'' (Str ''T'') ?z example_db)) = StoreBody s
          \<and> s_userId s = 1"
    by simp
  from d p have d': "\<exists>p. body (fst (put_products_id ''1'' Undefined ?z ?z example_db))
              = ProductBody p
          \<and> p_price p = 10 \<and> p_storeId p = 1"
    by simp
  from a b' c d' show ?thesis by blast
qed

section \<open>User records in responses (C10)\<close>

text \<open>
  C10.  The body of a 201 answer of POST /users is the created user record as stored,
  with the password of the request in it; the body of GET /users is the stored user
  records, every field of each, ordered by identifier.  Neither handler selects fields:
  the bodies hold whole \<open>user\<close> records.
\<close>

theorem users_carry_password:
  "(post_users now name email password d = (r, d') \<and> status r = 201 \<longrightarrow>
      (\<exists>u. body r = UserBody u \<and> password = Str (u_password u) \<and> users d' = users d @ [u]))
   \<and> (\<exists>us. get_users env d = (respond 200 (UsersBody us), d)
          \<and> mset us = mset (users d) \<and> sorted (map u_id us))"
proof (intro conjI impI)
  assume a: "post_users now name email password d = (r, d') \<and> status r = 201"
  then obtain u where c: "user_create now name email password d = Inr (u, d')"
    and r: "r = respond 201 (UserBody u)"
    by (auto simp: post_users_def respond_def split: if_splits sum.splits)
  from user_create_Inr [OF c] r
  show "\<exists>u. body r = UserBody u \<and> password = Str (u_password u) \<and> users d' = users d @ [u]"
    by (auto simp: respond_def)
next
  show "\<exists>us. get_users env d = (respond 200 (UsersBody us), d)
          \<and> mset us = mset (users d) \<and> sorted (map u_id us)"
    by (rule exI [of _ "sort_key u_id (users d)"]) (simp add: get_users_def user_findMany_def)
qed

theorem users_carry_password_witness:
  "(\<exists>u. body (fst (post_users 10 (Str ''B'') (Str ''b@b.com'') (Str ''x'') example_db)) = UserBody u
        \<and> u_password u = ''x'')
   \<and> (\<exists>us. get_users None example_db = (respond 200 (UsersBody us), example_db)
          \<and> map u_password us = [''p''])"
proof -
  note e = email_test_ok
  obtain r d' where p: "post_users 10 (Str ''B'') (Str ''b@b.com'') (Str ''x'') example_db = (r, d')"
    by fastforce
  have s: "status r = 201"
    using p e by (auto simp: post_users_def user_create_def example_db_def respond_def Let_def)
  from users_carry_password [of 10 "Str ''B''" "Str ''b@b.com''" "Str ''x''" example_db r d' None] p s
  obtain u us where "body r = UserBody u" "Str ''x'' = Str (u_password u)"
    and "get_users None example_db = (respond 200 (UsersBody us), example_db)"
    and m: "mset us = mset (users example_db)"
    by blast
  moreover from m have "us = users example_db"
    by (simp add: example_db_def)
  ultimately show ?thesis using p by (auto simp: example_db_def)
qed

end
